theory Spec2Isabelle
  imports Complex_Main "HOL-Library.Word"
begin

section \<open>Data model (types.ts)\<close>

text \<open>
  \<^verbatim>\<open>CrimeType\<close> and \<^verbatim>\<open>Severity\<close> are string enums: at run time their values are the
  strings themselves, and \<^verbatim>\<open>analyzeImagery\<close> fills them by an unchecked cast of the
  backend's answer, so the two fields are strings here. \<^verbatim>\<open>FieldStatus\<close> is a union of
  six literals that only the code itself assigns.
\<close>

definition CrimeType_values :: "string list" where
  "CrimeType_values =
     [''Illegal Logging'', ''Poaching Camp'', ''Charcoal Burning'', ''River Pollution'',
      ''Unauthorized Encroachment'', ''Suspicious Vehicle'']"

definition Severity_values :: "string list" where
  "Severity_values = [''Low'', ''Medium'', ''High'', ''Critical'']"

datatype FieldStatus =
  Detected | Alerted | InvestigationPending | ThreatConfirmed | AreaSecured | FalsePositive

fun FieldStatus_string :: "FieldStatus \<Rightarrow> string" where
  "FieldStatus_string Detected = ''Detected''"
| "FieldStatus_string Alerted = ''Alerted''"
| "FieldStatus_string InvestigationPending = ''Investigation Pending''"
| "FieldStatus_string ThreatConfirmed = ''Threat Confirmed''"
| "FieldStatus_string AreaSecured = ''Area Secured''"
| "FieldStatus_string FalsePositive = ''False Positive''"

record ReasoningStructure =
  hypothesis :: string
  evidencePoints :: "string list"
  alternatives :: "string list"
  changeDetection :: string

datatype reasoning = PlainText string | Structured ReasoningStructure

record GroundingSource =
  title :: string
  uri :: string

datatype AccuracyRating = Correct | Partial | Incorrect

record FieldFeedback =
  confirmed :: "bool option"
  accuracyRating :: AccuracyRating
  groundNotes :: string
  updatedBy :: string
  feedback_timestamp :: int

record Location =
  lat :: real
  lng :: real
  region :: string

text \<open>
  \<^verbatim>\<open>IncidentReport\<close>. The fields \<^verbatim>\<open>id\<close> and \<^verbatim>\<open>type\<close> are renamed (\<open>id\<close> is a
  constant of HOL); an optional field is an \<open>option\<close>.
\<close>

record IncidentReport =
  incident_id :: string
  timestamp :: int
  incident_type :: string
  severity :: string
  location :: Location
  description :: string
  confidence :: real
  imageUrl :: "string option"
  status :: FieldStatus
  reasoningChain :: "reasoning option"
  groundingSources :: "GroundingSource list option"
  feedback :: "FieldFeedback option"

section \<open>Application state (App.tsx)\<close>

datatype tab = Dashboard | Monitor | Reports

text \<open>
  The pieces of React state that the handlers below read or write. The incident list
  holds the objects that \<^verbatim>\<open>analyzeImagery\<close> returned; TypeScript declares them
  \<^verbatim>\<open>IncidentReport\<close> and checks nothing at run time. The handlers that read the fields
  of an incident are modelled on reports of the declared type, \<^verbatim>\<open>handleFileUpload\<close>,
  which only moves the object into the list, on the object as it was built.
\<close>

record 'r app_state =
  incidents :: "'r list"
  isAnalyzing :: bool
  activeTab :: tab
  agentLog :: "string list"

definition initial_agentLog :: "string list" where
  "initial_agentLog = [''System initialized.'', ''Waiting for satellite uplink...'']"

subsection \<open>addLog\<close>

text \<open>
  \<^verbatim>\<open>setAgentLog(prev => [`[${new Date().toLocaleTimeString()}] ${msg}`, ...prev.slice(0, 19)])\<close>.
  The locale's rendering of the clock is the argument \<open>now\<close>.
\<close>

definition log_entry :: "string \<Rightarrow> string \<Rightarrow> string" where
  "log_entry now msg = ''['' @ now @ ''] '' @ msg"

definition addLog :: "string \<Rightarrow> string \<Rightarrow> string list \<Rightarrow> string list" where
  "addLog now msg prev = log_entry now msg # take 19 prev"

subsection \<open>handleFeedbackSubmit\<close>

definition feedback_status :: "FieldFeedback \<Rightarrow> FieldStatus" where
  "feedback_status fb = (if accuracyRating fb = Incorrect then FalsePositive else ThreatConfirmed)"

definition apply_feedback :: "string \<Rightarrow> FieldFeedback \<Rightarrow> IncidentReport \<Rightarrow> IncidentReport" where
  "apply_feedback ident fb inc =
     (if incident_id inc = ident
      then inc\<lparr>feedback := Some fb, status := feedback_status fb\<rparr>
      else inc)"

definition handleFeedbackSubmit ::
    "string \<Rightarrow> string \<Rightarrow> FieldFeedback \<Rightarrow> IncidentReport app_state
       \<Rightarrow> IncidentReport app_state" where
  "handleFeedbackSubmit now ident fb st =
     st\<lparr>incidents := map (apply_feedback ident fb) (incidents st),
        agentLog := addLog now
          (''Feedback received for '' @ take 5 ident @ ''. Agent thought signatures updating.'')
          (agentLog st)\<rparr>"

text \<open>Concrete records used as inputs below.\<close>

definition example_incident :: "string \<Rightarrow> string \<Rightarrow> IncidentReport" where
  "example_incident ident descr =
     \<lparr>incident_id = ident, timestamp = 1767225600000, incident_type = ''Poaching Camp'',
      severity = ''High'', location = \<lparr>lat = - 1.29, lng = 36.8, region = ''Mau Forest''\<rparr>,
      description = descr, confidence = 0.9, imageUrl = None, status = Alerted,
      reasoningChain = None, groundingSources = None, feedback = None\<rparr>"

definition example_feedback :: FieldFeedback where
  "example_feedback =
     \<lparr>confirmed = Some True, accuracyRating = Incorrect, groundNotes = ''no camp on site'',
      updatedBy = ''Ranger-KWS-HQ'', feedback_timestamp = 1767229200000\<rparr>"

definition example_state :: "IncidentReport app_state" where
  "example_state =
     \<lparr>incidents = [example_incident ''a1x9'' ''the so-called \"camp\"'',
                   example_incident ''b2y8'' ''kiln''],
      isAnalyzing = False, activeTab = Reports, agentLog = initial_agentLog\<rparr>"

section \<open>Audio decoding (components/Chatbot.tsx)\<close>

text \<open>
  What a JavaScript expression can throw, and what an awaited promise can do. One type
  serves every part of the development.
\<close>

datatype js_error =
  RangeError | NotSupportedError | IndexSizeError | TypeError | SyntaxError | TransportError

datatype 'a awaited = Resolves 'a | Rejects js_error

text \<open>
  A JavaScript number as far as the decoder meets one: a finite value, the quotient of a
  positive number by zero, or the quotient \<^verbatim>\<open>0 / 0\<close>. A finite value is a \<open>real\<close>: the
  decoder's only arithmetic is the division of a 16-bit integer by \<^verbatim>\<open>32768.0\<close>, which is
  exact in binary floating point, also in the 32 bits of a \<^verbatim>\<open>Float32Array\<close>.
\<close>

datatype jsnum = Num real | PosInf | NaN

type_synonym byte = "8 word"

text \<open>
  \<^verbatim>\<open>new Int16Array(data.buffer)\<close>: a view of the bytes as 16-bit signed integers in the
  byte order of the platform, little-endian on every platform a browser runs on. The
  constructor throws a \<^verbatim>\<open>RangeError\<close> when the byte length is odd. \<^verbatim>\<open>decode\<close> allocates
  the array, so the buffer holds exactly the bytes of \<^verbatim>\<open>data\<close>.
\<close>

fun int16_view :: "byte list \<Rightarrow> 16 word list" where
  "int16_view (lo # hi # rest) = word_cat hi lo # int16_view rest"
| "int16_view _ = []"

definition Int16Array :: "byte list \<Rightarrow> js_error + 16 word list" where
  "Int16Array buf = (if odd (length buf) then Inl RangeError else Inr (int16_view buf))"

text \<open>\<^verbatim>\<open>dataInt16.length / numChannels\<close>, a division of JavaScript numbers.\<close>

definition js_div :: "nat \<Rightarrow> nat \<Rightarrow> jsnum" where
  "js_div a b = (if b = 0 then (if a = 0 then NaN else PosInf) else Num (real a / real b))"

text \<open>
  \<^verbatim>\<open>dataInt16[k] / 32768.0\<close>: a read outside the view is \<^verbatim>\<open>undefined\<close>, and the quotient
  is then \<^verbatim>\<open>NaN\<close>.
\<close>

definition sample_at :: "16 word list \<Rightarrow> nat \<Rightarrow> jsnum" where
  "sample_at dataInt16 k =
     (if k < length dataInt16 then Num (real_of_int (sint (dataInt16 ! k)) / 32768) else NaN)"

record AudioBuffer =
  sampleRate :: nat
  channels :: "jsnum list list"

text \<open>
  The audio context is an argument of \<^verbatim>\<open>decodeAudioData\<close>; the decoder uses its
  \<^verbatim>\<open>createBuffer(numberOfChannels, length, sampleRate)\<close> only.
\<close>

record AudioContext =
  createBuffer :: "nat \<Rightarrow> jsnum \<Rightarrow> nat \<Rightarrow> js_error + AudioBuffer"

text \<open>
  The inner loop \<^verbatim>\<open>for (let i = 0; i < frameCount; i++) channelData[i] = ...\<close>.
  \<^verbatim>\<open>frameCount\<close> need not be an integer. A write past the end of a typed array is
  ignored, which is what \<open>xs[i := v]\<close> does.
\<close>

function sample_loop ::
    "16 word list \<Rightarrow> nat \<Rightarrow> nat \<Rightarrow> real \<Rightarrow> nat \<Rightarrow> jsnum list \<Rightarrow> jsnum list" where
  "sample_loop dataInt16 numChannels channel frameCount i channelData =
     (if real i < frameCount
      then sample_loop dataInt16 numChannels channel frameCount (Suc i)
             (channelData[i := sample_at dataInt16 (i * numChannels + channel)])
      else channelData)"
  by pat_completeness auto
termination
proof (relation "measure (\<lambda>(d, n, c, frameCount, i, cd). nat \<lceil>frameCount\<rceil> - i)")
  fix dataInt16 :: "16 word list" and numChannels channel i :: nat
    and frameCount :: real and channelData :: "jsnum list"
  assume "real i < frameCount"
  then have "int i < \<lceil>frameCount\<rceil>"
    by (simp add: less_ceiling_iff)
  then have "i < nat \<lceil>frameCount\<rceil>"
    by simp
  then show "((dataInt16, numChannels, channel, frameCount, Suc i,
                channelData[i := sample_at dataInt16 (i * numChannels + channel)]),
              (dataInt16, numChannels, channel, frameCount, i, channelData))
             \<in> measure (\<lambda>(d, n, c, frameCount, i, cd). nat \<lceil>frameCount\<rceil> - i)"
    by simp
qed simp

text \<open>
  The outer loop \<^verbatim>\<open>for (let channel = 0; channel < numChannels; channel++)\<close>.
  \<^verbatim>\<open>getChannelData\<close> throws an \<^verbatim>\<open>IndexSizeError\<close> for a channel the buffer does not have.
  The body runs only when \<^verbatim>\<open>numChannels\<close> is positive, and \<^verbatim>\<open>frameCount\<close> is then finite;
  \<^verbatim>\<open>i < NaN\<close> is false.
\<close>

definition fill_channel :: "16 word list \<Rightarrow> nat \<Rightarrow> jsnum \<Rightarrow> nat \<Rightarrow> jsnum list \<Rightarrow> jsnum list" where
  "fill_channel dataInt16 numChannels frameCount channel channelData =
     (case frameCount of
        Num fc \<Rightarrow> sample_loop dataInt16 numChannels channel fc 0 channelData
      | _ \<Rightarrow> channelData)"

function channel_loop ::
    "16 word list \<Rightarrow> nat \<Rightarrow> jsnum \<Rightarrow> nat \<Rightarrow> jsnum list list \<Rightarrow> js_error + jsnum list list" where
  "channel_loop dataInt16 numChannels frameCount channel chans =
     (if channel < numChannels
      then (if channel < length chans
            then channel_loop dataInt16 numChannels frameCount (Suc channel)
                   (chans[channel := fill_channel dataInt16 numChannels frameCount channel
                                        (chans ! channel)])
            else Inl IndexSizeError)
      else Inr chans)"
  by pat_completeness auto
termination
  by (relation "measure (\<lambda>(d, numChannels, fc, channel, chans). numChannels - channel)") auto

definition decodeAudioData ::
    "byte list \<Rightarrow> AudioContext \<Rightarrow> nat \<Rightarrow> nat \<Rightarrow> js_error + AudioBuffer" where
  "decodeAudioData data ctx sampleRate' numChannels =
     (case Int16Array data of
        Inl e \<Rightarrow> Inl e
      | Inr dataInt16 \<Rightarrow>
          (let frameCount = js_div (length dataInt16) numChannels in
           case createBuffer ctx numChannels frameCount sampleRate' of
             Inl e \<Rightarrow> Inl e
           | Inr buffer \<Rightarrow>
               (case channel_loop dataInt16 numChannels frameCount 0 (channels buffer) of
                  Inl e \<Rightarrow> Inl e
                | Inr chans \<Rightarrow> Inr (buffer\<lparr>channels := chans\<rparr>))))"

text \<open>
  The context of a browser, as the Web Audio API and Web IDL define \<^verbatim>\<open>createBuffer\<close>:
  the length is converted to an \<^verbatim>\<open>unsigned long\<close> (\<^verbatim>\<open>NaN\<close> and infinities become 0, a
  fraction is cut off, the result is taken modulo \<open>2 ^ 32\<close>; the lengths met here are not
  negative), a channel count or a length of 0 is refused with a \<^verbatim>\<open>NotSupportedError\<close>,
  and the new buffer is silent. An implementation's upper limits on the channel count and
  on the sample rate are not part of this model.
\<close>

definition to_unsigned_long :: "jsnum \<Rightarrow> nat" where
  "to_unsigned_long x = (case x of Num r \<Rightarrow> nat \<lfloor>r\<rfloor> mod 2 ^ 32 | _ \<Rightarrow> 0)"

definition browser_createBuffer :: "nat \<Rightarrow> jsnum \<Rightarrow> nat \<Rightarrow> js_error + AudioBuffer" where
  "browser_createBuffer numberOfChannels len rate =
     (if numberOfChannels = 0 \<or> to_unsigned_long len = 0 then Inl NotSupportedError
      else Inr \<lparr>sampleRate = rate,
                channels = replicate numberOfChannels (replicate (to_unsigned_long len) (Num 0))\<rparr>)"

definition browser_context :: AudioContext where
  "browser_context = \<lparr>createBuffer = browser_createBuffer\<rparr>"

text \<open>
  The signed 16-bit little-endian integer at a byte offset, written out arithmetically:
  the reading of the bytes that the statements about the decoder use.
\<close>

definition int16LE :: "byte list \<Rightarrow> nat \<Rightarrow> int" where
  "int16LE buf off =
     (let u = int (unat (buf ! off)) + 256 * int (unat (buf ! (off + 1)))
      in if u < 32768 then u else u - 65536)"

text \<open>Byte buffers used as concrete inputs below.\<close>

definition three_samples :: "byte list" where
  "three_samples = [1, 0, 2, 0, 3, 0]"

definition stereo_frames :: "byte list" where
  "stereo_frames = [1, 0, 255, 255, 0, 128, 255, 127]"

declare sample_loop.simps [simp del] channel_loop.simps [simp del]

section \<open>Video generation (MazingiraAgent.generateVideo)\<close>

text \<open>
  What \<^verbatim>\<open>generateVideo\<close> reads of an operation: \<^verbatim>\<open>operation.done\<close> (absent counts as
  false) and \<^verbatim>\<open>operation.response?.generatedVideos?.[0]?.video?.uri\<close> (\<open>None\<close> when any
  link of the chain is missing). A backend reports a failed job as a finished operation
  that carries an error and no response; the code never reads the error.
\<close>

record VideoOperation =
  op_done :: bool
  op_error :: "string option"
  video_uri :: "string option"

text \<open>
  The collaborators: the video backend (the k-th status query is answered from the
  operation handed in), the download of the result (\<^verbatim>\<open>fetch\<close> followed by \<^verbatim>\<open>blob()\<close>,
  either of which may reject), \<^verbatim>\<open>URL.createObjectURL\<close>, and the environment's API key.
\<close>

record video_backend =
  generateVideos :: "string \<Rightarrow> VideoOperation awaited"
  getVideosOperation :: "nat \<Rightarrow> VideoOperation \<Rightarrow> VideoOperation awaited"
  fetch_blob :: "string \<Rightarrow> string awaited"
  createObjectURL :: "string \<Rightarrow> string"
  API_KEY :: "string option"

text \<open>What the function does to the outside world, in order.\<close>

datatype video_event =
  SubmitJob string | Timeout nat | StatusQuery nat | Download string | ConsoleError string

definition video_prompt :: "string \<Rightarrow> string" where
  "video_prompt prompt =
     ''A cinematic aerial drone simulation of: '' @ prompt
       @ ''. Highly realistic, 4k, environmental surveillance style.''"

text \<open>A template literal renders \<^verbatim>\<open>undefined\<close> as the word.\<close>

definition template_string :: "string option \<Rightarrow> string" where
  "template_string v = (case v of None \<Rightarrow> ''undefined'' | Some s \<Rightarrow> s)"

definition download_url :: "video_backend \<Rightarrow> string \<Rightarrow> string" where
  "download_url be downloadLink = downloadLink @ ''&key='' @ template_string (API_KEY be)"

text \<open>
  \<^verbatim>\<open>while (!operation.done) { await new Promise(resolve => setTimeout(resolve, 5000));
  operation = await veoAi.operations.getVideosOperation({ operation }); }\<close>
  The loop has no bound: a backend that never reports \<^verbatim>\<open>done\<close> keeps it running, and the
  result is then \<open>None\<close>. The loop ends with the finished operation or with the error of
  a query that was rejected.
\<close>

partial_function (option) poll_loop ::
    "video_backend \<Rightarrow> nat \<Rightarrow> VideoOperation \<Rightarrow> video_event list
       \<Rightarrow> (VideoOperation awaited \<times> video_event list) option" where
  "poll_loop be k operation trace =
     (if \<not> op_done operation
      then (case getVideosOperation be k operation of
              Rejects e \<Rightarrow> Some (Rejects e, trace @ [Timeout 5000, StatusQuery k])
            | Resolves operation' \<Rightarrow>
                poll_loop be (Suc k) operation' (trace @ [Timeout 5000, StatusQuery k]))
      else Some (Resolves operation, trace))"

text \<open>
  The whole body is inside \<^verbatim>\<open>try\<close>, and the \<^verbatim>\<open>catch\<close> logs and returns \<^verbatim>\<open>null\<close>: the
  promise of \<^verbatim>\<open>generateVideo\<close> never rejects, it resolves with a string or with
  \<^verbatim>\<open>null\<close>. The outer \<open>option\<close> is \<open>None\<close> when the loop never ends.
\<close>

definition video_catch :: "video_event list \<Rightarrow> string option \<times> video_event list" where
  "video_catch trace = (None, trace @ [ConsoleError ''Video Generation Error:''])"

definition generateVideo ::
    "video_backend \<Rightarrow> string \<Rightarrow> (string option \<times> video_event list) option" where
  "generateVideo be prompt =
     (case generateVideos be (video_prompt prompt) of
        Rejects e \<Rightarrow> Some (video_catch [SubmitJob (video_prompt prompt)])
      | Resolves operation0 \<Rightarrow>
          (case poll_loop be 0 operation0 [SubmitJob (video_prompt prompt)] of
             None \<Rightarrow> None
           | Some (Rejects e, trace) \<Rightarrow> Some (video_catch trace)
           | Some (Resolves operation, trace) \<Rightarrow>
               (case video_uri operation of
                  None \<Rightarrow> Some (None, trace)
                | Some downloadLink \<Rightarrow>
                    if downloadLink = [] then Some (None, trace)
                    else (case fetch_blob be (download_url be downloadLink) of
                            Rejects e \<Rightarrow>
                              Some (video_catch (trace @ [Download (download_url be downloadLink)]))
                          | Resolves blob \<Rightarrow>
                              Some (Some (createObjectURL be blob),
                                    trace @ [Download (download_url be downloadLink)])))))"

text \<open>The status queries of a trace, and the events of the polls \<open>s, \<dots>, s + n - 1\<close>.\<close>

fun status_queries :: "video_event list \<Rightarrow> nat list" where
  "status_queries [] = []"
| "status_queries (StatusQuery k # es) = k # status_queries es"
| "status_queries (e # es) = status_queries es"

fun poll_events :: "nat \<Rightarrow> nat \<Rightarrow> video_event list" where
  "poll_events s 0 = []"
| "poll_events s (Suc n) = Timeout 5000 # StatusQuery s # poll_events (Suc s) n"

text \<open>
  Scripted backends: one that answers the submission and the first two status queries
  with a running operation and the third with a finished one, and one whose first status
  query is rejected.
\<close>

definition running_op :: VideoOperation where
  "running_op = \<lparr>op_done = False, op_error = None, video_uri = None\<rparr>"

definition completed_op :: VideoOperation where
  "completed_op =
     \<lparr>op_done = True, op_error = None, video_uri = Some ''https://backend.example/v1/video7?alt=media''\<rparr>"

definition failed_op :: VideoOperation where
  "failed_op = \<lparr>op_done = True, op_error = Some ''quota exceeded'', video_uri = None\<rparr>"

definition scripted_backend :: "(nat \<Rightarrow> VideoOperation awaited) \<Rightarrow> video_backend" where
  "scripted_backend script =
     \<lparr>generateVideos = (\<lambda>p. Resolves running_op),
      getVideosOperation = (\<lambda>k operation. script k),
      fetch_blob = (\<lambda>url. Resolves (''bytes of '' @ url)),
      createObjectURL = (\<lambda>blob. ''blob:https://app.example/0f3c''),
      API_KEY = Some ''K''\<rparr>"

definition third_poll_completes :: "nat \<Rightarrow> VideoOperation awaited" where
  "third_poll_completes k = (if k < 2 then Resolves running_op else Resolves completed_op)"

text \<open>The operations that the function holds in turn against that backend.\<close>

definition third_poll_ops :: "nat \<Rightarrow> VideoOperation" where
  "third_poll_ops k = (if k < 3 then running_op else completed_op)"

definition first_poll_rejected :: "nat \<Rightarrow> VideoOperation awaited" where
  "first_poll_rejected k = Rejects TransportError"

definition second_poll_failed :: "nat \<Rightarrow> VideoOperation awaited" where
  "second_poll_failed k = (if k = 0 then Resolves running_op else Resolves failed_op)"

section \<open>Image analysis (MazingiraAgent.analyzeImagery)\<close>

text \<open>
  A number of JavaScript, and a value as \<^verbatim>\<open>JSON.parse\<close> returns it. The members of an
  object are kept in the order of the text. \<^verbatim>\<open>JSON.parse\<close> never returns
  \<^verbatim>\<open>NaN\<close>; a literal too large for a double becomes an infinity. A finite number is
  the value of the double, so comparing two of them is exact.
\<close>

datatype number = Finite real | Infinity | MinusInfinity | NotANumber

datatype json =
  JNull | JBool bool | JNumber number | JString string | JArray "json list"
  | JObject "(string \<times> json) list"

text \<open>
  \<^verbatim>\<open>data.name\<close> for the names read here (\<^verbatim>\<open>type\<close>, \<^verbatim>\<open>confidence\<close>, \<^verbatim>\<open>severity\<close>,
  \<^verbatim>\<open>description\<close>, \<^verbatim>\<open>reasoningChain\<close>), which no boolean, number, string or array
  has: \<open>None\<close> is \<^verbatim>\<open>undefined\<close>. Of a member written twice the last one counts. On
  \<^verbatim>\<open>null\<close> the access throws a TypeError, which \<open>analyzeImagery\<close> below tests first.
\<close>

definition member :: "json \<Rightarrow> string \<Rightarrow> json option" where
  "member data name = (case data of JObject members \<Rightarrow> map_of (rev members) name | _ \<Rightarrow> None)"

text \<open>\<^verbatim>\<open>!v\<close> is the negation of this.\<close>

fun truthy :: "json option \<Rightarrow> bool" where
  "truthy None = False"
| "truthy (Some JNull) = False"
| "truthy (Some (JBool b)) = b"
| "truthy (Some (JNumber n)) = (n \<noteq> Finite 0 \<and> n \<noteq> NotANumber)"
| "truthy (Some (JString s)) = (s \<noteq> [])"
| "truthy (Some (JArray xs)) = True"
| "truthy (Some (JObject members)) = True"

record web_source =
  web_title :: "string option"
  web_uri :: string

record grounding_chunk =
  web :: "web_source option"

record GenerateContentResponse =
  response_text :: "string option"
  groundingChunks :: "grounding_chunk list option"

text \<open>
  The surroundings of one call: \<^verbatim>\<open>JSON.parse\<close> (\<open>None\<close> when it throws a SyntaxError),
  the conversion of a string to a number, the string an array converts to, the string
  a value other than a string shows as in a template literal, the string
  \<^verbatim>\<open>Math.random().toString(36).substring(7)\<close>, \<^verbatim>\<open>Date.now()\<close>, and the two further
  draws of \<^verbatim>\<open>Math.random()\<close>.
\<close>

record vision_env =
  JSON_parse :: "string \<Rightarrow> json option"
  StringToNumber :: "string \<Rightarrow> number"
  Array_toString :: "json list \<Rightarrow> string"
  json_toString :: "json \<Rightarrow> string"
  random_id :: string
  Date_now :: int
  random_lat :: real
  random_lng :: real

text \<open>
  The operand of \<^verbatim>\<open>data.confidence < 0.4\<close> as a number: \<^verbatim>\<open>undefined\<close> is \<^verbatim>\<open>NaN\<close>,
  \<^verbatim>\<open>null\<close> is 0, an array goes through its string, an object through
  \<^verbatim>\<open>"[object Object]"\<close>. Then \<^verbatim>\<open><\<close> on numbers: false whenever a side is \<^verbatim>\<open>NaN\<close>.
\<close>

fun ToNumber :: "vision_env \<Rightarrow> json option \<Rightarrow> number" where
  "ToNumber env None = NotANumber"
| "ToNumber env (Some JNull) = Finite 0"
| "ToNumber env (Some (JBool b)) = Finite (if b then 1 else 0)"
| "ToNumber env (Some (JNumber n)) = n"
| "ToNumber env (Some (JString s)) = StringToNumber env s"
| "ToNumber env (Some (JArray xs)) = StringToNumber env (Array_toString env xs)"
| "ToNumber env (Some (JObject members)) = NotANumber"

fun js_less :: "number \<Rightarrow> number \<Rightarrow> bool" where
  "js_less NotANumber y = False"
| "js_less x NotANumber = False"
| "js_less (Finite a) (Finite b) = (a < b)"
| "js_less x MinusInfinity = False"
| "js_less MinusInfinity y = True"
| "js_less Infinity y = False"
| "js_less (Finite a) Infinity = True"

text \<open>\<^verbatim>\<open>response.text || "{}"\<close>: an absent or empty text is replaced.\<close>

definition text_or_default :: "string option \<Rightarrow> string" where
  "text_or_default t = (case t of None \<Rightarrow> ''{}'' | Some s \<Rightarrow> if s = [] then ''{}'' else s)"

text \<open>\<^verbatim>\<open>chunks.forEach(chunk => { if (chunk.web) groundingSources.push(...) })\<close>\<close>

fun grounding_of_chunks :: "grounding_chunk list \<Rightarrow> GroundingSource list" where
  "grounding_of_chunks [] = []"
| "grounding_of_chunks (chunk # chunks) =
     (case web chunk of
        None \<Rightarrow> grounding_of_chunks chunks
      | Some w \<Rightarrow>
          \<lparr>title = (case web_title w of None \<Rightarrow> ''Source Verified''
                     | Some t \<Rightarrow> if t = [] then ''Source Verified'' else t),
           uri = web_uri w\<rparr> # grounding_of_chunks chunks)"

definition extract_grounding :: "GenerateContentResponse \<Rightarrow> GroundingSource list" where
  "extract_grounding response =
     (case groundingChunks response of None \<Rightarrow> [] | Some chunks \<Rightarrow> grounding_of_chunks chunks)"

text \<open>
  The object literal that \<^verbatim>\<open>analyzeImagery\<close> returns. Five of its members are copied
  from the parsed reply as they are, whatever their type, and may be \<^verbatim>\<open>undefined\<close>.
  The arithmetic of the coordinates is that of the source, without the rounding of
  floating point.
\<close>

record AnalysisReport =
  report_id :: string
  report_timestamp :: int
  report_type :: "json option"
  report_severity :: "json option"
  report_location :: Location
  report_description :: "json option"
  report_confidence :: "json option"
  report_imageUrl :: string
  report_status :: FieldStatus
  report_reasoningChain :: "json option"
  report_groundingSources :: "GroundingSource list"

definition materialize ::
    "vision_env \<Rightarrow> GenerateContentResponse \<Rightarrow> json \<Rightarrow> string \<Rightarrow> string \<Rightarrow> AnalysisReport" where
  "materialize env response data base64Image region' =
     \<lparr>report_id = random_id env,
      report_timestamp = Date_now env,
      report_type = member data ''type'',
      report_severity = member data ''severity'',
      report_location = \<lparr>lat = - 1.286389 + (random_lat env - 0.5) * 0.1,
                         lng = 36.817223 + (random_lng env - 0.5) * 0.1,
                         region = region'\<rparr>,
      report_description = member data ''description'',
      report_confidence = member data ''confidence'',
      report_imageUrl = ''data:image/jpeg;base64,'' @ base64Image,
      report_status = Detected,
      report_reasoningChain = member data ''reasoningChain'',
      report_groundingSources = extract_grounding response\<rparr>"

text \<open>
  \<^verbatim>\<open>analyzeImagery\<close>, from the answer of \<^verbatim>\<open>generateContent\<close> on. The request (the image,
  the region and the history of earlier reports worked into the prompt) goes to the
  backend and is not looked at again. The result is the value the promise resolves with,
  and what was written with \<^verbatim>\<open>console.error\<close>: the whole body is inside \<^verbatim>\<open>try\<close>, and
  the \<^verbatim>\<open>catch\<close> logs and returns \<^verbatim>\<open>null\<close>. The guard is
  \<^verbatim>\<open>if (!data.type || data.confidence < 0.4) return null\<close>.
\<close>

definition analysis_catch :: "AnalysisReport option \<times> string list" where
  "analysis_catch = (None, [''Gemini Analysis Error:''])"

definition analyzeImagery ::
    "vision_env \<Rightarrow> GenerateContentResponse awaited \<Rightarrow> string \<Rightarrow> string
       \<Rightarrow> AnalysisReport option \<times> string list" where
  "analyzeImagery env reply base64Image region' =
     (case reply of
        Rejects e \<Rightarrow> analysis_catch
      | Resolves response \<Rightarrow>
          (case JSON_parse env (text_or_default (response_text response)) of
             None \<Rightarrow> analysis_catch
           | Some data \<Rightarrow>
               if data = JNull then analysis_catch
               else if \<not> truthy (member data ''type'') then (None, [])
               else if js_less (ToNumber env (member data ''confidence'')) (Finite 0.4)
                 then (None, [])
               else (Some (materialize env response data base64Image region'), [])))"

text \<open>
  The promise that the caller awaits. It is never rejected: an error inside
  \<^verbatim>\<open>analyzeImagery\<close> has become the value \<^verbatim>\<open>null\<close>.
\<close>

definition analyzeImagery_promise ::
    "vision_env \<Rightarrow> GenerateContentResponse awaited \<Rightarrow> string \<Rightarrow> string
       \<Rightarrow> AnalysisReport option awaited" where
  "analyzeImagery_promise env reply base64Image region' =
     Resolves (fst (analyzeImagery env reply base64Image region'))"

subsection \<open>handleFileUpload\<close>

text \<open>
  A value in a template literal: a string as it is, \<^verbatim>\<open>undefined\<close> as the word.
\<close>

definition shown :: "vision_env \<Rightarrow> json option \<Rightarrow> string" where
  "shown env v =
     (case v of None \<Rightarrow> ''undefined'' | Some (JString s) \<Rightarrow> s | Some w \<Rightarrow> json_toString env w)"

text \<open>
  The handler from the moment the file has been read: the \<^verbatim>\<open>try\<close> with the awaited
  call, the \<^verbatim>\<open>catch\<close> that reports an interrupted uplink, and the \<^verbatim>\<open>finally\<close>.
  \<open>clock k\<close> is the time shown by the k-th log line.
\<close>

definition handleFileUpload ::
    "vision_env \<Rightarrow> GenerateContentResponse awaited \<Rightarrow> string \<Rightarrow> string \<Rightarrow> (nat \<Rightarrow> string)
       \<Rightarrow> AnalysisReport app_state \<Rightarrow> AnalysisReport app_state" where
  "handleFileUpload env reply base64String selectedRegion clock st =
     (let log1 = addLog (clock 0)
                   (''Ingesting satellite sector imagery for '' @ selectedRegion @ ''...'')
                   (agentLog st);
          log2 = addLog (clock 1) ''Analyzing change signatures & grounding facts...'' log1
      in case analyzeImagery_promise env reply base64String selectedRegion of
           Resolves (Some result) \<Rightarrow>
             st\<lparr>incidents := result # incidents st,
                agentLog := addLog (clock 2)
                  (''ALERT: '' @ shown env (report_type result) @ '' detected. Priority: ''
                     @ shown env (report_severity result) @ ''.'') log2,
                activeTab := Reports,
                isAnalyzing := False\<rparr>
         | Resolves None \<Rightarrow>
             st\<lparr>agentLog := addLog (clock 2)
                  ''Sector scan complete. No critical threats identified.'' log2,
                isAnalyzing := False\<rparr>
         | Rejects err \<Rightarrow>
             st\<lparr>agentLog := addLog (clock 2)
                  ''ERROR: Satellite uplink interrupted. Check vision module.'' log2,
                isAnalyzing := False\<rparr>)"

text \<open>Concrete replies of the backend, and the part of the platform that reads them.\<close>

definition example_analysis :: "real \<Rightarrow> json" where
  "example_analysis c =
     JObject [(''type'', JString ''Illegal Logging''), (''severity'', JString ''High''),
              (''description'', JString ''Fresh clearing along the ridge''),
              (''confidence'', JNumber (Finite c)),
              (''reasoningChain'',
               JObject [(''hypothesis'', JString ''selective logging''),
                        (''evidencePoints'', JArray [JString ''stumps'']),
                        (''alternatives'', JArray [JString ''landslide'']),
                        (''changeDetection'', JString ''expanding'')])]"

definition example_response :: "string \<Rightarrow> GenerateContentResponse" where
  "example_response t = \<lparr>response_text = Some t, groundingChunks = None\<rparr>"

text \<open>
  The texts \<open>low\<close> and \<open>edge\<close> stand for the JSON of \<open>example_analysis\<close> with
  confidence 0.39 and 0.40.
\<close>

definition example_parse :: "string \<Rightarrow> json option" where
  "example_parse t =
     (if t = ''{}'' then Some (JObject [])
      else if t = ''null'' then Some JNull
      else if t = ''{\"type\":\"Illegal Logging\"}''
        then Some (JObject [(''type'', JString ''Illegal Logging'')])
      else if t = ''low'' then Some (example_analysis 0.39)
      else if t = ''edge'' then Some (example_analysis 0.40)
      else None)"

definition example_env :: vision_env where
  "example_env =
     \<lparr>JSON_parse = example_parse, StringToNumber = (\<lambda>s. NotANumber),
      Array_toString = (\<lambda>xs. []), json_toString = (\<lambda>v. ''[value]''),
      random_id = ''k3x9q'', Date_now = 1767225600000,
      random_lat = 0.5, random_lng = 0.25\<rparr>"

definition empty_registry :: "AnalysisReport app_state" where
  "empty_registry =
     \<lparr>incidents = [], isAnalyzing = True, activeTab = Monitor, agentLog = initial_agentLog\<rparr>"

section \<open>Chat streaming (Chatbot.handleSend)\<close>

datatype role = User | Model

record Message =
  role :: role
  msg_text :: string
  videoUrl :: "string option"

record chat_state =
  messages :: "Message list"
  inputValue :: string
  isLoading :: bool

definition initial_messages :: "Message list" where
  "initial_messages =
     [\<lparr>role = Model,
       msg_text = ''MazingiraGuard AI Liaison active. How can I assist your conservation efforts today?'',
       videoUrl = None\<rparr>]"

text \<open>
  A chunk of the stream, as far as \<^verbatim>\<open>handleSend\<close> reads it: \<^verbatim>\<open>c.text\<close>, a string or
  \<^verbatim>\<open>undefined\<close>. \<^verbatim>\<open>fullText += c.text\<close> converts its operand to a string, as a template
  literal does.
\<close>

record chunk =
  chunk_text :: "string option"

definition text_chunk :: "string \<Rightarrow> chunk" where
  "text_chunk f = \<lparr>chunk_text = Some f\<rparr>"

text \<open>
  What \<^verbatim>\<open>sendMessageStream\<close> does: it rejects, or it yields chunks and then ends, either
  because the channel was closed or with an error thrown inside \<^verbatim>\<open>for await\<close>.
\<close>

datatype chat_reply = SendRejected js_error | Streamed "chunk list" "js_error option"

text \<open>
  \<^verbatim>\<open>newMessages[newMessages.length - 1].text = fullText\<close>. The list is never empty
  where this runs: \<^verbatim>\<open>handleSend\<close> has appended two messages before.
\<close>

definition set_last_text :: "Message list \<Rightarrow> string \<Rightarrow> Message list" where
  "set_last_text msgs t = msgs[length msgs - 1 := (msgs ! (length msgs - 1))\<lparr>msg_text := t\<rparr>]"

text \<open>
  \<^verbatim>\<open>setMessages\<close> is called with an updater function. React puts the updater in a queue
  and runs the queued updaters, in order, when it next renders. The handler has two
  kinds: one appends a message; the other,
  \<^verbatim>\<open>prev => { ...; newMessages[newMessages.length - 1].text = fullText; ... }\<close>,
  reads the variable \<^verbatim>\<open>fullText\<close> when it is run, not when it is queued.
\<close>

datatype updater = AppendMessage Message | SetLastText

fun run_updater :: "string \<Rightarrow> Message list \<Rightarrow> updater \<Rightarrow> Message list" where
  "run_updater fullText msgs (AppendMessage m) = msgs @ [m]"
| "run_updater fullText msgs SetLastText = set_last_text msgs fullText"

text \<open>
  The message list as last rendered, the updaters queued since, and every list rendered
  so far, in order.
\<close>

record message_queue =
  committed :: "Message list"
  pending :: "updater list"
  rendered :: "Message list list"

definition enqueue :: "updater \<Rightarrow> message_queue \<Rightarrow> message_queue" where
  "enqueue u q = q\<lparr>pending := pending q @ [u]\<rparr>"

text \<open>A render: nothing to do without a queued update; \<open>fullText\<close> is the variable then.\<close>

definition render :: "string \<Rightarrow> message_queue \<Rightarrow> message_queue" where
  "render fullText q =
     (if pending q = [] then q
      else (let msgs = foldl (run_updater fullText) (committed q) (pending q)
            in \<lparr>committed = msgs, pending = [], rendered = rendered q @ [msgs]\<rparr>))"

text \<open>What a render would show now.\<close>

definition settled :: "string \<Rightarrow> message_queue \<Rightarrow> Message list" where
  "settled fullText q = foldl (run_updater fullText) (committed q) (pending q)"

text \<open>
  The handler gives up control at its awaits only. Whether React renders during a given
  await, before the handler goes on, is for its scheduler to decide: \<open>renders k\<close> says
  so for the k-th await of a run. The await of \<^verbatim>\<open>sendMessageStream\<close> is number 0, the
  await for the k-th chunk, or for the end of the stream, number k.
\<close>

definition await :: "bool \<Rightarrow> string \<Rightarrow> message_queue \<Rightarrow> message_queue" where
  "await renders_now fullText q = (if renders_now then render fullText q else q)"

text \<open>
  The loop \<^verbatim>\<open>for await (const chunk of response)\<close> from its k-th await on: the
  accumulator \<^verbatim>\<open>fullText\<close> and the queue. \<^verbatim>\<open>fullText += c.text\<close> converts its
  operand to a string.
\<close>

fun stream_loop ::
    "(nat \<Rightarrow> bool) \<Rightarrow> nat \<Rightarrow> string \<Rightarrow> message_queue \<Rightarrow> chunk list \<Rightarrow> string \<times> message_queue" where
  "stream_loop renders k fullText q [] = (fullText, await (renders k) fullText q)"
| "stream_loop renders k fullText q (c # cs) =
     stream_loop renders (Suc k) (fullText @ template_string (chunk_text c))
       (enqueue SetLastText (await (renders k) fullText q)) cs"

definition user_message :: "string \<Rightarrow> Message" where
  "user_message t = \<lparr>role = User, msg_text = t, videoUrl = None\<rparr>"

definition model_message :: "string \<Rightarrow> Message" where
  "model_message t = \<lparr>role = Model, msg_text = t, videoUrl = None\<rparr>"

definition chat_error_message :: Message where
  "chat_error_message =
     \<lparr>role = Model, msg_text = ''Error connecting to satellite link. Please try again.'',
      videoUrl = None\<rparr>"

text \<open>
  \<^verbatim>\<open>handleSend\<close>: the state it leaves once React has rendered what was pending at its
  end, and every message list that was rendered, in order. \<open>trim\<close> is
  \<^verbatim>\<open>String.prototype.trim\<close>.
\<close>

definition handleSend ::
    "(string \<Rightarrow> string) \<Rightarrow> (nat \<Rightarrow> bool) \<Rightarrow> chat_reply \<Rightarrow> chat_state
       \<Rightarrow> chat_state \<times> Message list list" where
  "handleSend trim renders reply st =
     (if trim (inputValue st) = [] \<or> isLoading st then (st, [])
      else
        let userText = trim (inputValue st);
            q0 = enqueue (AppendMessage (user_message userText))
                   \<lparr>committed = messages st, pending = [], rendered = []\<rparr>;
            q1 = await (renders 0) [] q0
        in case reply of
             SendRejected e \<Rightarrow>
               (let q = render [] (enqueue (AppendMessage chat_error_message) q1)
                in (st\<lparr>messages := committed q, inputValue := [], isLoading := False\<rparr>,
                    rendered q))
           | Streamed chunks ending \<Rightarrow>
               (let q2 = enqueue (AppendMessage (model_message [])) q1;
                    (fullText, q3) = stream_loop renders 1 [] q2 chunks;
                    q4 = (case ending of
                            None \<Rightarrow> q3
                          | Some e \<Rightarrow> enqueue (AppendMessage chat_error_message) q3);
                    q = render fullText q4
                in (st\<lparr>messages := committed q, inputValue := [], isLoading := False\<rparr>,
                    rendered q)))"

text \<open>
  \<^verbatim>\<open>trim\<close> on a text of ASCII characters: it strips tab, line feed, vertical tab, form
  feed, carriage return and space from both ends.
\<close>

definition is_space :: "char \<Rightarrow> bool" where
  "is_space c = (c = CHR 0x09 \<or> c = CHR 0x0A \<or> c = CHR 0x0B \<or> c = CHR 0x0C \<or> c = CHR 0x0D
                 \<or> c = CHR 0x20)"

definition ascii_trim :: "string \<Rightarrow> string" where
  "ascii_trim s = rev (dropWhile is_space (rev (dropWhile is_space s)))"

definition example_chat :: chat_state where
  "example_chat = \<lparr>messages = initial_messages, inputValue = '' any alerts? '', isLoading = False\<rparr>"

section \<open>CSV export (App.handleExportCSV)\<close>

text \<open>
  Functions of the platform that the export calls: \<^verbatim>\<open>Date.prototype.toISOString\<close> on
  the epoch milliseconds, the conversion of a number to a string that \<^verbatim>\<open>Array.join\<close>
  applies, and \<^verbatim>\<open>encodeURI\<close>.
\<close>

record formatters =
  toISOString :: "int \<Rightarrow> string"
  number_toString :: "real \<Rightarrow> string"
  encodeURI :: "string \<Rightarrow> string"

definition LF :: char where
  "LF = CHR 0x0A"

definition dquote :: char where
  "dquote = CHR 0x22"

text \<open>\<^verbatim>\<open>Array.prototype.join\<close> on strings.\<close>

fun join :: "string \<Rightarrow> string list \<Rightarrow> string" where
  "join sep [] = []"
| "join sep [x] = x"
| "join sep (x # y # ys) = x @ sep @ join sep (y # ys)"

text \<open>\<^verbatim>\<open>description.replace(/"/g, '""')\<close>: every double quote is replaced by two.\<close>

fun escape_quotes :: "string \<Rightarrow> string" where
  "escape_quotes [] = []"
| "escape_quotes (c # cs) =
     (if c = dquote then dquote # dquote # escape_quotes cs else c # escape_quotes cs)"

definition csv_headers :: "string list" where
  "csv_headers =
     [''ID'', ''Timestamp'', ''Type'', ''Severity'', ''Region'', ''Status'', ''Confidence'',
      ''Description'']"

definition csv_row :: "formatters \<Rightarrow> IncidentReport \<Rightarrow> string list" where
  "csv_row fmt inc =
     [incident_id inc,
      toISOString fmt (timestamp inc),
      incident_type inc,
      severity inc,
      region (location inc),
      FieldStatus_string (status inc),
      number_toString fmt (confidence inc),
      [dquote] @ escape_quotes (description inc) @ [dquote]]"

text \<open>
  \<^verbatim>\<open>[headers.join(","), ...rows.map(r => r.join(","))].join("\n")\<close> is the CSV text;
  \<^verbatim>\<open>csvContent\<close> puts the scheme of a data URI before it.
\<close>

definition csv_text :: "formatters \<Rightarrow> IncidentReport list \<Rightarrow> string" where
  "csv_text fmt incs =
     join [LF] (join '','' csv_headers # map (\<lambda>r. join '','' r) (map (csv_row fmt) incs))"

definition csvContent :: "formatters \<Rightarrow> IncidentReport list \<Rightarrow> string" where
  "csvContent fmt incs = ''data:text/csv;charset=utf-8,'' @ csv_text fmt incs"

record download_link =
  href :: string
  download_name :: string

text \<open>
  \<^verbatim>\<open>handleExportCSV\<close>: nothing happens for an empty list; otherwise a link is clicked
  and a line is logged. \<open>now_iso\<close> is \<^verbatim>\<open>new Date().toISOString()\<close>, \<open>now\<close> the time of
  the log line.
\<close>

definition handleExportCSV ::
    "formatters \<Rightarrow> string \<Rightarrow> string \<Rightarrow> IncidentReport app_state
       \<Rightarrow> download_link option \<times> IncidentReport app_state" where
  "handleExportCSV fmt now_iso now st =
     (if length (incidents st) = 0 then (None, st)
      else (Some \<lparr>href = encodeURI fmt (csvContent fmt (incidents st)),
                  download_name = ''mazingira_reports_'' @ now_iso @ ''.csv''\<rparr>,
            st\<lparr>agentLog := addLog now ''Active reports exported to CSV.'' (agentLog st)\<rparr>))"

text \<open>
  The lines of a text, split at every line feed, and the inverse of the quoting: a pair
  of double quotes stands for one.
\<close>

fun split_lines :: "string \<Rightarrow> string list" where
  "split_lines [] = [[]]"
| "split_lines (c # cs) =
     (if c = LF then [] # split_lines cs
      else (case split_lines cs of [] \<Rightarrow> [[c]] | l # ls \<Rightarrow> (c # l) # ls))"

fun unescape_quotes :: "string \<Rightarrow> string" where
  "unescape_quotes (c # c' # cs) =
     (if c = dquote \<and> c' = dquote then dquote # unescape_quotes cs
      else c # unescape_quotes (c' # cs))"
| "unescape_quotes cs = cs"

definition example_formatters :: formatters where
  "example_formatters =
     \<lparr>toISOString = (\<lambda>ms. ''2026-01-01T00:00:00.000Z''),
      number_toString = (\<lambda>x. ''0.9''),
      encodeURI = (\<lambda>s. s)\<rparr>"

section \<open>The agent log is bounded\<close>

lemma length_addLog: "length (addLog now msg prev) = min 20 (Suc (length prev))"
  by (simp add: addLog_def min_def)

text \<open>
  C8. Every log operation puts the new entry first, keeps the entries that were there in
  their order behind it, and drops all but the 19 most recent of them: whatever the length
  of the log before, it has at most 20 entries afterwards, the newest first.
\<close>

theorem addLog_prepends_and_caps:
  "addLog now msg prev = log_entry now msg # take 19 prev
   \<and> hd (addLog now msg prev) = ''['' @ now @ ''] '' @ msg
   \<and> tl (addLog now msg prev) = take (min 19 (length prev)) prev
   \<and> length (addLog now msg prev) = min 20 (Suc (length prev))
   \<and> length (addLog now msg prev) \<le> 20"
  by (simp add: addLog_def log_entry_def min_def)

theorem addLog_prepends_and_caps_witness:
  "length (addLog ''10:00:00'' ''x'' (replicate 25 ''old'')) = 20
   \<and> hd (addLog ''10:00:00'' ''x'' (replicate 25 ''old'')) = ''[10:00:00] x''"
  using addLog_prepends_and_caps [of "''10:00:00''" "''x''" "replicate 25 ''old''"]
  by (simp add: log_entry_def)

section \<open>Field feedback touches one incident and two fields\<close>

lemma apply_feedback_other: "incident_id inc \<noteq> ident \<Longrightarrow> apply_feedback ident fb inc = inc"
  by (simp add: apply_feedback_def)

lemma apply_feedback_target:
  "incident_id inc = ident \<Longrightarrow>
     apply_feedback ident fb inc = inc\<lparr>feedback := Some fb, status := feedback_status fb\<rparr>"
  by (simp add: apply_feedback_def)

text \<open>
  C10. For every incident list and every feedback submitted for incident id X: the list
  keeps its length and order; an incident whose id is X receives the feedback, and its
  status becomes False Positive exactly when the rating is Incorrect and Threat Confirmed
  otherwise, while every other field of it stays as it was; an incident whose id is not X
  is unchanged.
\<close>

theorem handleFeedbackSubmit_frame:
  "length (incidents (handleFeedbackSubmit now X fb st)) = length (incidents st)
   \<and> (\<forall>i < length (incidents st).
        (incident_id (incidents st ! i) = X \<longrightarrow>
           incidents (handleFeedbackSubmit now X fb st) ! i
             = (incidents st ! i)\<lparr>feedback := Some fb,
                                    status := (if accuracyRating fb = Incorrect
                                               then FalsePositive else ThreatConfirmed)\<rparr>
           \<and> feedback (incidents (handleFeedbackSubmit now X fb st) ! i) = Some fb
           \<and> (status (incidents (handleFeedbackSubmit now X fb st) ! i) = FalsePositive
                \<longleftrightarrow> accuracyRating fb = Incorrect)
           \<and> (status (incidents (handleFeedbackSubmit now X fb st) ! i) = ThreatConfirmed
                \<longleftrightarrow> accuracyRating fb \<noteq> Incorrect)
           \<and> incident_id (incidents (handleFeedbackSubmit now X fb st) ! i) = X
           \<and> timestamp (incidents (handleFeedbackSubmit now X fb st) ! i)
                = timestamp (incidents st ! i)
           \<and> incident_type (incidents (handleFeedbackSubmit now X fb st) ! i)
                = incident_type (incidents st ! i)
           \<and> severity (incidents (handleFeedbackSubmit now X fb st) ! i)
                = severity (incidents st ! i)
           \<and> location (incidents (handleFeedbackSubmit now X fb st) ! i)
                = location (incidents st ! i)
           \<and> description (incidents (handleFeedbackSubmit now X fb st) ! i)
                = description (incidents st ! i)
           \<and> confidence (incidents (handleFeedbackSubmit now X fb st) ! i)
                = confidence (incidents st ! i)
           \<and> imageUrl (incidents (handleFeedbackSubmit now X fb st) ! i)
                = imageUrl (incidents st ! i)
           \<and> reasoningChain (incidents (handleFeedbackSubmit now X fb st) ! i)
                = reasoningChain (incidents st ! i)
           \<and> groundingSources (incidents (handleFeedbackSubmit now X fb st) ! i)
                = groundingSources (incidents st ! i))
        \<and> (incident_id (incidents st ! i) \<noteq> X \<longrightarrow>
             incidents (handleFeedbackSubmit now X fb st) ! i = incidents st ! i))"
  by (simp add: handleFeedbackSubmit_def apply_feedback_def feedback_status_def)

theorem handleFeedbackSubmit_frame_witness:
  "incidents (handleFeedbackSubmit ''09:00:00'' ''a1x9'' example_feedback example_state) ! 0
     = (example_incident ''a1x9'' ''the so-called \"camp\"'')
         \<lparr>feedback := Some example_feedback, status := FalsePositive\<rparr>
   \<and> incidents (handleFeedbackSubmit ''09:00:00'' ''a1x9'' example_feedback example_state) ! 1
     = example_incident ''b2y8'' ''kiln''
   \<and> length (incidents (handleFeedbackSubmit ''09:00:00'' ''a1x9'' example_feedback
         example_state)) = 2"
proof -
  note frame = handleFeedbackSubmit_frame
    [of "''09:00:00''" "''a1x9''" example_feedback example_state]
  have len: "length (incidents example_state) = 2"
    by (simp add: example_state_def)
  have ids: "incident_id (incidents example_state ! 0) = ''a1x9''"
    "incident_id (incidents example_state ! 1) \<noteq> ''a1x9''"
    by (simp_all add: example_state_def example_incident_def)
  from frame len ids(1)
  have "incidents (handleFeedbackSubmit ''09:00:00'' ''a1x9'' example_feedback example_state) ! 0
     = (incidents example_state ! 0)\<lparr>feedback := Some example_feedback,
          status := (if accuracyRating example_feedback = Incorrect
                     then FalsePositive else ThreatConfirmed)\<rparr>"
    by simp
  moreover from frame len ids(2)
  have "incidents (handleFeedbackSubmit ''09:00:00'' ''a1x9'' example_feedback example_state) ! 1
     = incidents example_state ! 1"
    by simp
  moreover from frame len
  have "length (incidents (handleFeedbackSubmit ''09:00:00'' ''a1x9'' example_feedback
         example_state)) = 2"
    by simp
  ultimately show ?thesis
    by (simp add: example_state_def example_feedback_def)
qed

section \<open>The audio decoder\<close>

subsection \<open>Reading the bytes\<close>

lemma uint_cat_bytes:
  "uint (word_cat (hi :: 8 word) (lo :: 8 word) :: 16 word) = uint lo + 256 * uint hi"
proof -
  have lo: "0 \<le> uint lo" "uint lo < 256" using uint_lt2p [of lo] by simp_all
  have hi: "0 \<le> uint hi" "uint hi < 256" using uint_lt2p [of hi] by simp_all
  have c: "concat_bit 8 (uint lo) (uint hi) = uint lo + 256 * uint hi"
    using lo by (simp add: concat_bit_eq take_bit_int_eq_self push_bit_eq_mult)
  have t: "take_bit 16 (uint lo + 256 * uint hi) = uint lo + 256 * uint hi"
    using lo hi by (intro take_bit_int_eq_self) auto
  have "uint (word_of_int x :: 16 word) = take_bit 16 x" for x :: int
    by (simp add: uint_word_of_int_eq)
  then have "uint (word_cat hi lo :: 16 word) = take_bit 16 (concat_bit 8 (uint lo) (uint hi))"
    unfolding word_cat_eq' by simp
  then show ?thesis
    by (simp only: c t)
qed


lemma sint_16_if: "sint (w :: 16 word) = (if uint w < 32768 then uint w else uint w - 65536)"
proof -
  have b: "uint w < 65536" "0 \<le> uint w" using uint_lt2p [of w] by simp_all
  have s: "sint w = take_bit 16 (uint w + 32768) - 32768"
    by (simp add: sint_uint signed_take_bit_eq_take_bit_shift)
  show ?thesis
  proof (cases "uint w < 32768")
    case True
    then have "take_bit 16 (uint w + 32768) = uint w + 32768"
      using b by (intro take_bit_int_eq_self) auto
    with True s show ?thesis by simp
  next
    case False
    then have "(uint w + 32768) mod 65536 = uint w - 32768"
      using b by (simp add: mod_pos_geq)
    with False s show ?thesis by (simp add: take_bit_eq_mod)
  qed
qed

lemma length_int16_view: "length (int16_view bs) = length bs div 2"
  by (induction bs rule: int16_view.induct) auto

lemma int16_view_nth:
  "2 * k + 1 < length bs \<Longrightarrow> int16_view bs ! k = word_cat (bs ! (2 * k + 1)) (bs ! (2 * k))"
proof (induction bs arbitrary: k rule: int16_view.induct)
  case (1 lo hi rest)
  then show ?case by (cases k) auto
qed auto

lemma sint_int16_view:
  assumes "2 * k + 1 < length bs"
  shows "sint (int16_view bs ! k) = int16LE bs (2 * k)"
  using assms
  by (simp add: int16_view_nth sint_16_if uint_cat_bytes int16LE_def Let_def)

subsection \<open>The two loops\<close>

lemma sample_loop_length [simp]:
  "length (sample_loop d n c fc i cd) = length cd"
proof (induction d n c fc i cd rule: sample_loop.induct)
  case (1 d n c fc i cd)
  then show ?case
    by (subst sample_loop.simps) simp
qed

lemma sample_loop_nth:
  "fc = real N \<Longrightarrow> length cd = N \<Longrightarrow> j < N \<Longrightarrow>
     sample_loop d n c fc i cd ! j = (if i \<le> j then sample_at d (j * n + c) else cd ! j)"
proof (induction d n c fc i cd rule: sample_loop.induct)
  case (1 d n c fc i cd)
  show ?case
  proof (cases "real i < fc")
    case True
    with "1.prems" have iN: "i < N" by simp
    have "sample_loop d n c fc i cd ! j
            = sample_loop d n c fc (Suc i) (cd[i := sample_at d (i * n + c)]) ! j"
      using True by (subst sample_loop.simps) simp
    also have "\<dots> = (if Suc i \<le> j then sample_at d (j * n + c)
                      else cd[i := sample_at d (i * n + c)] ! j)"
      using "1.IH" [OF True] "1.prems" by simp
    also have "\<dots> = (if i \<le> j then sample_at d (j * n + c) else cd ! j)"
      using iN "1.prems" by (cases "i = j") auto
    finally show ?thesis .
  next
    case False
    with "1.prems" have "\<not> i \<le> j" by simp
    moreover have "sample_loop d n c fc i cd = cd"
      using False by (subst sample_loop.simps) simp
    ultimately show ?thesis by simp
  qed
qed

lemma channel_loop_result:
  "length chans = nch \<Longrightarrow>
     \<exists>chans'. channel_loop d nch fc ch chans = Inr chans' \<and> length chans' = nch \<and>
       (\<forall>c < nch. chans' ! c
           = (if ch \<le> c then fill_channel d nch fc c (chans ! c) else chans ! c))"
proof (induction d nch fc ch chans rule: channel_loop.induct)
  case (1 d nch fc ch chans)
  show ?case
  proof (cases "ch < nch")
    case True
    let ?chans = "chans[ch := fill_channel d nch fc ch (chans ! ch)]"
    have step: "channel_loop d nch fc ch chans = channel_loop d nch fc (Suc ch) ?chans"
      using True "1.prems" by (subst channel_loop.simps) simp
    from "1.IH" [OF True] True "1.prems"
    obtain chans' where r: "channel_loop d nch fc (Suc ch) ?chans = Inr chans'"
      "length chans' = nch"
      "\<forall>c < nch. chans' ! c
           = (if Suc ch \<le> c then fill_channel d nch fc c (?chans ! c) else ?chans ! c)"
      by auto
    have "\<forall>c < nch. chans' ! c
           = (if ch \<le> c then fill_channel d nch fc c (chans ! c) else chans ! c)"
    proof (intro allI impI)
      fix c assume c: "c < nch"
      with r(3) have "chans' ! c
           = (if Suc ch \<le> c then fill_channel d nch fc c (?chans ! c) else ?chans ! c)"
        by simp
      then show "chans' ! c
           = (if ch \<le> c then fill_channel d nch fc c (chans ! c) else chans ! c)"
        using c "1.prems" by (cases "c = ch") auto
    qed
    with step r(1,2) show ?thesis by simp
  next
    case False
    then have "channel_loop d nch fc ch chans = Inr chans"
      by (subst channel_loop.simps) simp
    with False "1.prems" show ?thesis by simp
  qed
qed

subsection \<open>De-interleaving\<close>

lemma decodeAudioData_planar:
  assumes len: "length data = 2 * numChannels * N"
    and ch: "0 < numChannels"
    and ctx: "createBuffer ctx numChannels (Num (real N)) rate = Inr buffer"
    and shape: "length (channels buffer) = numChannels"
               "\<forall>c < numChannels. length (channels buffer ! c) = N"
  shows "\<exists>decoded. decodeAudioData data ctx rate numChannels = Inr decoded
           \<and> length (channels decoded) = numChannels
           \<and> (\<forall>c < numChannels. length (channels decoded ! c) = N
                \<and> (\<forall>i < N. channels decoded ! c ! i
                      = Num (real_of_int (int16LE data ((i * numChannels + c) * 2)) / 32768)))"
proof -
  let ?d = "int16_view data"
  have even: "\<not> odd (length data)" using len by simp
  have ld: "length ?d = numChannels * N"
    using len by (simp add: length_int16_view)
  have fc: "js_div (length ?d) numChannels = Num (real N)"
    using ch ld by (simp add: js_div_def)
  from channel_loop_result [OF shape(1), of ?d "Num (real N)" 0]
  obtain chans' where r: "channel_loop ?d numChannels (Num (real N)) 0 (channels buffer) = Inr chans'"
    "length chans' = numChannels"
    "\<forall>c < numChannels. chans' ! c = fill_channel ?d numChannels (Num (real N)) c (channels buffer ! c)"
    by auto
  have dec: "decodeAudioData data ctx rate numChannels = Inr (buffer\<lparr>channels := chans'\<rparr>)"
    using even fc ctx r(1) by (simp add: decodeAudioData_def Int16Array_def)
  have "length (chans' ! c) = N \<and> (\<forall>i < N. chans' ! c ! i
          = Num (real_of_int (int16LE data ((i * numChannels + c) * 2)) / 32768))"
    if c: "c < numChannels" for c
  proof -
    have cl: "length (channels buffer ! c) = N" using shape(2) c by simp
    have eq: "chans' ! c = sample_loop ?d numChannels c (real N) 0 (channels buffer ! c)"
      using r(3) c by (simp add: fill_channel_def)
    have "chans' ! c ! i = Num (real_of_int (int16LE data ((i * numChannels + c) * 2)) / 32768)"
      if i: "i < N" for i
    proof -
      have k: "i * numChannels + c < numChannels * N"
      proof -
        have "i * numChannels + c < i * numChannels + numChannels" using c by simp
        also have "\<dots> = Suc i * numChannels" by simp
        also have "\<dots> \<le> N * numChannels" using i by (intro mult_le_mono1) simp
        finally show ?thesis by (simp add: mult.commute)
      qed
      then have k2: "2 * (i * numChannels + c) + 1 < length data" using len by simp
      have "chans' ! c ! i = sample_at ?d (i * numChannels + c)"
        using sample_loop_nth [OF refl cl i, of ?d numChannels c 0] eq by simp
      also have "\<dots> = Num (real_of_int (sint (?d ! (i * numChannels + c))) / 32768)"
        using k ld by (simp add: sample_at_def)
      also have "sint (?d ! (i * numChannels + c)) = int16LE data (2 * (i * numChannels + c))"
        using k2 by (rule sint_int16_view)
      finally show ?thesis by (simp add: mult.commute)
    qed
    with eq cl show ?thesis by simp
  qed
  with dec r(2) show ?thesis by simp
qed


text \<open>
  C4. For every PCM16 little-endian byte buffer of length 2 * channelCount * N, with at
  least one channel and an audio context that creates the buffer asked for (channelCount
  channels of N frames), decoding returns planar buffers, one per channel, of N frames
  each; sample i of channel c is the signed 16-bit little-endian integer at byte offset
  (i * channelCount + c) * 2, divided by 32768, and in particular sample i of channel 0 is
  the integer at offset i * channelCount * 2, divided by 32768.
\<close>

theorem decodeAudioData_deinterleaves:
  assumes "length data = 2 * numChannels * N"
    and "0 < numChannels"
    and "createBuffer ctx numChannels (Num (real N)) rate = Inr buffer"
    and "length (channels buffer) = numChannels"
    and "\<forall>c < numChannels. length (channels buffer ! c) = N"
  shows "\<exists>decoded. decodeAudioData data ctx rate numChannels = Inr decoded
           \<and> length (channels decoded) = numChannels
           \<and> (\<forall>c < numChannels. length (channels decoded ! c) = N
                \<and> (\<forall>i < N. channels decoded ! c ! i
                      = Num (real_of_int (int16LE data ((i * numChannels + c) * 2)) / 32768)))
           \<and> (\<forall>i < N. channels decoded ! 0 ! i
                      = Num (real_of_int (int16LE data (i * numChannels * 2)) / 32768))"
proof -
  from decodeAudioData_planar [OF assms]
  obtain decoded where d: "decodeAudioData data ctx rate numChannels = Inr decoded"
    "length (channels decoded) = numChannels"
    "\<forall>c < numChannels. length (channels decoded ! c) = N
        \<and> (\<forall>i < N. channels decoded ! c ! i
              = Num (real_of_int (int16LE data ((i * numChannels + c) * 2)) / 32768))"
    by blast
  from d(3) assms(2)
  have "\<forall>i < N. channels decoded ! 0 ! i
          = Num (real_of_int (int16LE data ((i * numChannels + 0) * 2)) / 32768)"
    by blast
  then have "\<forall>i < N. channels decoded ! 0 ! i
          = Num (real_of_int (int16LE data (i * numChannels * 2)) / 32768)"
    by simp
  with d show ?thesis by blast
qed

theorem decodeAudioData_deinterleaves_witness:
  "length stereo_frames = 2 * 2 * 2
   \<and> (\<exists>decoded. decodeAudioData stereo_frames browser_context 24000 2 = Inr decoded
         \<and> length (channels decoded) = 2
         \<and> channels decoded ! 0 ! 0 = Num (1 / 32768)
         \<and> channels decoded ! 1 ! 0 = Num (- 1 / 32768)
         \<and> channels decoded ! 0 ! 1 = Num (- 1)
         \<and> channels decoded ! 1 ! 1 = Num (32767 / 32768))"
proof -
  have len: "length stereo_frames = 2 * 2 * 2"
    by (simp add: stereo_frames_def)
  have ctx: "createBuffer browser_context 2 (Num (real 2)) 24000
               = Inr \<lparr>sampleRate = 24000, channels = [[Num 0, Num 0], [Num 0, Num 0]]\<rparr>"
  proof -
    have "to_unsigned_long (Num (real 2)) = 2"
      by (simp add: to_unsigned_long_def)
    moreover have "replicate 2 (replicate 2 (Num 0)) = [[Num 0, Num 0], [Num 0, Num 0]]"
      by (simp add: numeral_2_eq_2)
    ultimately show ?thesis
      by (simp add: browser_context_def browser_createBuffer_def)
  qed
  have shape: "length (channels \<lparr>sampleRate = 24000,
                  channels = [[Num 0, Num 0], [Num 0, Num 0]]\<rparr>) = 2"
    "\<forall>c < 2. length (channels \<lparr>sampleRate = 24000,
                  channels = [[Num 0, Num 0], [Num 0, Num 0]]\<rparr> ! c) = 2"
    by (simp_all add: less_Suc_eq numeral_2_eq_2)
  from decodeAudioData_deinterleaves [OF len _ ctx shape]
  obtain decoded where d: "decodeAudioData stereo_frames browser_context 24000 2 = Inr decoded"
    "length (channels decoded) = 2"
    "\<forall>c < 2. length (channels decoded ! c) = 2
        \<and> (\<forall>i < 2. channels decoded ! c ! i
              = Num (real_of_int (int16LE stereo_frames ((i * 2 + c) * 2)) / 32768))"
    by auto
  have v: "int16LE stereo_frames 0 = 1" "int16LE stereo_frames 2 = - 1"
    "int16LE stereo_frames 4 = - 32768" "int16LE stereo_frames 6 = 32767"
    by (simp_all add: int16LE_def stereo_frames_def)
  from d(3) have nth: "channels decoded ! c ! i
      = Num (real_of_int (int16LE stereo_frames ((i * 2 + c) * 2)) / 32768)"
    if "c < 2" "i < 2" for c i
    using that by blast
  have "channels decoded ! 0 ! 0 = Num (1 / 32768)"
    using nth [of 0 0] v by simp
  moreover have "channels decoded ! 1 ! 0 = Num (- 1 / 32768)"
    using nth [of 1 0] v by simp
  moreover have "channels decoded ! 0 ! 1 = Num (- 1)"
    using nth [of 0 1] v by simp
  moreover have "channels decoded ! 1 ! 1 = Num (32767 / 32768)"
    using nth [of 1 1] v by simp
  ultimately show ?thesis
    using len d(1,2) v by simp
qed

subsection \<open>Buffers of the wrong length\<close>

text \<open>
  C3, as the code has it. A buffer of odd byte length is refused: the 16-bit view cannot
  be built, decoding fails with a RangeError before any audio buffer is created, and none
  is returned. With one channel, as at the decoder's only call, those are all the lengths
  that are not a multiple of 2 * channelCount.
\<close>

theorem decodeAudioData_odd_length_fails:
  "(odd (length data) \<longrightarrow> decodeAudioData data ctx rate numChannels = Inl RangeError)
   \<and> (\<not> (2 * 1) dvd length data \<longrightarrow> decodeAudioData data ctx rate 1 = Inl RangeError)"
  by (simp add: decodeAudioData_def Int16Array_def)

theorem decodeAudioData_odd_length_fails_witness:
  "odd (length [7 :: byte, 0, 9])
   \<and> decodeAudioData [7, 0, 9] browser_context 24000 2 = Inl RangeError
   \<and> decodeAudioData [7, 0, 9] browser_context 24000 1 = Inl RangeError"
  using decodeAudioData_odd_length_fails [of "[7, 0, 9]" browser_context 24000 2]
  by simp

text \<open>
  Six bytes are three samples, not a multiple of two channels' four bytes. The context
  cuts the length 1.5 down to one frame, the loops fill that frame, the write to the
  second slot is ignored, and a buffer is returned.
\<close>

theorem decodeAudioData_short_frame_counterexample:
  "\<not> (2 * 2) dvd length three_samples
   \<and> decodeAudioData three_samples browser_context 24000 2
       = Inr \<lparr>sampleRate = 24000, channels = [[Num (1 / 32768)], [Num (2 / 32768)]]\<rparr>"
proof -
  have "length three_samples = 6"
    by (simp add: three_samples_def)
  then have "\<not> (2 * 2) dvd length three_samples"
    by simp
  moreover have "replicate 2 [Num 0] = [[Num 0], [Num 0]]"
    by (simp add: numeral_2_eq_2)
  then have "decodeAudioData three_samples browser_context 24000 2
       = Inr \<lparr>sampleRate = 24000, channels = [[Num (1 / 32768)], [Num (2 / 32768)]]\<rparr>"
    by (simp add: three_samples_def decodeAudioData_def Int16Array_def js_div_def
        browser_context_def browser_createBuffer_def to_unsigned_long_def channel_loop.simps
        fill_channel_def sample_loop.simps sample_at_def)
  ultimately show ?thesis ..
qed

section \<open>The video job poller\<close>

lemma poll_loop_runs:
  "(\<forall>k < n. \<not> op_done (ops (s + k))
       \<and> getVideosOperation be (s + k) (ops (s + k)) = Resolves (ops (s + Suc k))) \<Longrightarrow>
     poll_loop be s (ops s) trace = poll_loop be (s + n) (ops (s + n)) (trace @ poll_events s n)"
proof (induction n arbitrary: s trace)
  case 0
  then show ?case by simp
next
  case (Suc n)
  from Suc.prems have first: "\<not> op_done (ops s)"
    "getVideosOperation be s (ops s) = Resolves (ops (Suc s))"
    by (auto dest: spec [of _ 0])
  have rest: "\<forall>k < n. \<not> op_done (ops (Suc s + k))
       \<and> getVideosOperation be (Suc s + k) (ops (Suc s + k)) = Resolves (ops (Suc s + Suc k))"
    using Suc.prems by (auto dest: spec [of _ "Suc k" for k])
  have "poll_loop be s (ops s) trace
          = poll_loop be (Suc s) (ops (Suc s)) (trace @ [Timeout 5000, StatusQuery s])"
    using first by (subst poll_loop.simps) simp
  also have "\<dots> = poll_loop be (Suc s + n) (ops (Suc s + n))
                     ((trace @ [Timeout 5000, StatusQuery s]) @ poll_events (Suc s) n)"
    by (rule Suc.IH [OF rest])
  finally show ?case by simp
qed

lemma status_queries_append [simp]:
  "status_queries (xs @ ys) = status_queries xs @ status_queries ys"
  by (induction xs rule: status_queries.induct) auto

lemma status_queries_poll_events [simp]: "status_queries (poll_events s n) = [s..<s + n]"
  by (induction s n rule: poll_events.induct) (auto simp: upt_rec)


lemma poll_loop_finished:
  "op_done operation \<Longrightarrow> poll_loop be k operation trace = Some (Resolves operation, trace)"
  by (subst poll_loop.simps) simp

lemma poll_loop_rejected:
  "\<not> op_done operation \<Longrightarrow> getVideosOperation be k operation = Rejects e \<Longrightarrow>
     poll_loop be k operation trace = Some (Rejects e, trace @ [Timeout 5000, StatusQuery k])"
  by (subst poll_loop.simps) simp

lemma poll_loop_from_submission:
  "\<forall>k < n. \<not> op_done (ops k) \<and> getVideosOperation be k (ops k) = Resolves (ops (Suc k)) \<Longrightarrow>
     poll_loop be 0 (ops 0) trace = poll_loop be n (ops n) (trace @ poll_events 0 n)"
  using poll_loop_runs [of n ops 0 be trace] by simp

lemma generateVideo_polls:
  assumes "generateVideos be (video_prompt prompt) = Resolves (ops 0)"
    and "\<forall>k < n. \<not> op_done (ops k)
                  \<and> getVideosOperation be k (ops k) = Resolves (ops (Suc k))"
    and "op_done (ops n)"
    and "video_uri (ops n) = Some locator" and "locator \<noteq> []"
  shows "\<exists>result trace. generateVideo be prompt = Some (result, trace)
           \<and> status_queries trace = [0..<n]
           \<and> trace = SubmitJob (video_prompt prompt) # poll_events 0 n
                       @ [Download (locator @ ''&key='' @ template_string (API_KEY be))]
                       @ (case result of None \<Rightarrow> [ConsoleError ''Video Generation Error:'']
                                       | Some url \<Rightarrow> [])
           \<and> (\<forall>blob. fetch_blob be (locator @ ''&key='' @ template_string (API_KEY be))
                         = Resolves blob \<longrightarrow> result = Some (createObjectURL be blob))
           \<and> (\<forall>e. fetch_blob be (locator @ ''&key='' @ template_string (API_KEY be))
                         = Rejects e \<longrightarrow> result = None)"
proof -
  from assms(2) have "poll_loop be 0 (ops 0) [SubmitJob (video_prompt prompt)]
          = poll_loop be n (ops n) ([SubmitJob (video_prompt prompt)] @ poll_events 0 n)"
    by (rule poll_loop_from_submission)
  also from assms(3) have "\<dots>
          = Some (Resolves (ops n), [SubmitJob (video_prompt prompt)] @ poll_events 0 n)"
    by (rule poll_loop_finished)
  finally have "poll_loop be 0 (ops 0) [SubmitJob (video_prompt prompt)]
          = Some (Resolves (ops n), [SubmitJob (video_prompt prompt)] @ poll_events 0 n)" .
  then show ?thesis
    using assms(1,4,5)
    by (cases "fetch_blob be (locator @ ''&key='' @ template_string (API_KEY be))")
       (simp_all add: generateVideo_def download_url_def video_catch_def)
qed

lemma third_poll_script:
  "generateVideos (scripted_backend third_poll_completes) (video_prompt ''fire'')
     = Resolves (third_poll_ops 0)"
  "\<forall>k < 3. \<not> op_done (third_poll_ops k)
       \<and> getVideosOperation (scripted_backend third_poll_completes) k
            (third_poll_ops k)
          = Resolves (third_poll_ops (Suc k))"
  "op_done (third_poll_ops 3)"
  "video_uri (third_poll_ops 3)
     = Some ''https://backend.example/v1/video7?alt=media''"
  "''https://backend.example/v1/video7?alt=media'' \<noteq> []"
  by (auto simp: third_poll_ops_def scripted_backend_def third_poll_completes_def running_op_def completed_op_def
      less_Suc_eq numeral_3_eq_3 numeral_2_eq_2)

lemma poll_events_three:
  "poll_events 0 3 = [Timeout 5000, StatusQuery 0, Timeout 5000, StatusQuery 1,
                      Timeout 5000, StatusQuery 2]"
  by (simp add: numeral_3_eq_3 numeral_2_eq_2)

lemma upt_three: "[0..<3] = [0, 1, 2]"
  by (simp add: numeral_3_eq_3 numeral_2_eq_2 upt_rec)

lemma scripted_third_poll:
  "\<exists>trace. generateVideo (scripted_backend third_poll_completes) ''fire''
            = Some (Some ''blob:https://app.example/0f3c'', trace)
          \<and> status_queries trace = [0, 1, 2]"
proof -
  let ?be = "scripted_backend third_poll_completes"
  from generateVideo_polls [OF third_poll_script]
  obtain result trace where r: "generateVideo ?be ''fire'' = Some (result, trace)"
    "status_queries trace = [0..<3]"
    "\<forall>blob. fetch_blob ?be (''https://backend.example/v1/video7?alt=media'' @ ''&key=''
                 @ template_string (API_KEY ?be)) = Resolves blob
            \<longrightarrow> result = Some (createObjectURL ?be blob)"
    by blast
  from r(3) have "result = Some ''blob:https://app.example/0f3c''"
    by (simp add: scripted_backend_def)
  with r(1,2) show ?thesis by (simp add: upt_three)
qed

text \<open>
  C5, as the code has it. After the job is submitted, the function waits 5000 ms before
  every status query and queries until the backend reports the operation done. When the
  submission and the first n - 1 queries find the job running and the n-th query finds it
  done with a result locator, exactly the n queries 0, ..., n - 1 are made (three for a
  backend that reports running on the first two polls and completed on the third); the
  function then downloads the locator with the API key appended and resolves with the
  object URL made for the downloaded blob, or with null when the download fails, not with
  the locator.
\<close>

theorem generateVideo_polls_until_done:
  assumes "generateVideos be (video_prompt prompt) = Resolves (ops 0)"
    and "\<forall>k < n. \<not> op_done (ops k)
                  \<and> getVideosOperation be k (ops k) = Resolves (ops (Suc k))"
    and "op_done (ops n)"
    and "video_uri (ops n) = Some locator" and "locator \<noteq> []"
  shows "\<exists>result trace. generateVideo be prompt = Some (result, trace)
           \<and> status_queries trace = [0..<n]
           \<and> trace = SubmitJob (video_prompt prompt) # poll_events 0 n
                       @ [Download (locator @ ''&key='' @ template_string (API_KEY be))]
                       @ (case result of None \<Rightarrow> [ConsoleError ''Video Generation Error:'']
                                       | Some url \<Rightarrow> [])
           \<and> (\<forall>blob. fetch_blob be (locator @ ''&key='' @ template_string (API_KEY be))
                         = Resolves blob \<longrightarrow> result = Some (createObjectURL be blob))
           \<and> (\<forall>e. fetch_blob be (locator @ ''&key='' @ template_string (API_KEY be))
                         = Rejects e \<longrightarrow> result = None)"
  using assms by (rule generateVideo_polls)

theorem generateVideo_polls_until_done_witness:
  "third_poll_completes 0 = Resolves running_op
   \<and> third_poll_completes 1 = Resolves running_op
   \<and> third_poll_completes 2 = Resolves completed_op
   \<and> status_queries [SubmitJob (video_prompt ''fire''), Timeout 5000, StatusQuery 0,
        Timeout 5000, StatusQuery 1, Timeout 5000, StatusQuery 2,
        Download ''https://backend.example/v1/video7?alt=media&key=K''] = [0, 1, 2]
   \<and> generateVideo (scripted_backend third_poll_completes) ''fire''
       = Some (Some ''blob:https://app.example/0f3c'',
               [SubmitJob (video_prompt ''fire''), Timeout 5000, StatusQuery 0,
                Timeout 5000, StatusQuery 1, Timeout 5000, StatusQuery 2,
                Download ''https://backend.example/v1/video7?alt=media&key=K''])"
proof -
  let ?be = "scripted_backend third_poll_completes"
  from generateVideo_polls_until_done [OF third_poll_script]
  obtain result trace where r: "generateVideo ?be ''fire'' = Some (result, trace)"
    "trace = SubmitJob (video_prompt ''fire'') # poll_events 0 3
             @ [Download (''https://backend.example/v1/video7?alt=media'' @ ''&key=''
                 @ template_string (API_KEY ?be))]
             @ (case result of None \<Rightarrow> [ConsoleError ''Video Generation Error:'']
                             | Some url \<Rightarrow> [])"
    "\<forall>blob. fetch_blob ?be (''https://backend.example/v1/video7?alt=media'' @ ''&key=''
                 @ template_string (API_KEY ?be)) = Resolves blob
            \<longrightarrow> result = Some (createObjectURL ?be blob)"
    by blast
  from r(3) have "result = Some ''blob:https://app.example/0f3c''"
    by (simp add: scripted_backend_def)
  with r(1,2) show ?thesis
    by (simp add: scripted_backend_def template_string_def poll_events_three
        third_poll_completes_def)
qed

text \<open>
  The scripted backend declares the locator of \<open>completed_op\<close>; the function resolves
  with the object URL of the downloaded blob.
\<close>

theorem generateVideo_locator_counterexample:
  "map_option fst (generateVideo (scripted_backend third_poll_completes) ''fire'')
     = Some (Some ''blob:https://app.example/0f3c'')
   \<and> video_uri completed_op = Some ''https://backend.example/v1/video7?alt=media''
   \<and> map_option fst (generateVideo (scripted_backend third_poll_completes) ''fire'')
     \<noteq> Some (video_uri completed_op)"
  using scripted_third_poll by (auto simp: completed_op_def)

text \<open>
  C6, as the code has it. When the submission is rejected, when a status query is
  rejected after any number of polls that found the job running, or when the backend
  reports the job finished without a video (its way of reporting failure), the function
  logs to the console in the first two cases and resolves with null in all three: nothing
  is raised and no status payload is attached. No status query follows the failure: the
  queries made are exactly those up to the one that failed or that reported the end.
\<close>

theorem generateVideo_failure_is_null:
  "(generateVideos be (video_prompt prompt) = Rejects e \<longrightarrow>
      generateVideo be prompt
        = Some (None, [SubmitJob (video_prompt prompt), ConsoleError ''Video Generation Error:'']))
   \<and> (generateVideos be (video_prompt prompt) = Resolves (ops 0)
        \<and> (\<forall>k < n. \<not> op_done (ops k)
                     \<and> getVideosOperation be k (ops k) = Resolves (ops (Suc k))) \<longrightarrow>
        (\<not> op_done (ops n) \<and> getVideosOperation be n (ops n) = Rejects e \<longrightarrow>
           (\<exists>trace. generateVideo be prompt = Some (None, trace)
              \<and> trace = SubmitJob (video_prompt prompt) # poll_events 0 n
                          @ [Timeout 5000, StatusQuery n, ConsoleError ''Video Generation Error:'']
              \<and> status_queries trace = [0..<Suc n]))
        \<and> (op_done (ops n) \<and> video_uri (ops n) = None \<longrightarrow>
           (\<exists>trace. generateVideo be prompt = Some (None, trace)
              \<and> trace = SubmitJob (video_prompt prompt) # poll_events 0 n
              \<and> status_queries trace = [0..<n])))"
proof (intro conjI impI)
  assume "generateVideos be (video_prompt prompt) = Rejects e"
  then show "generateVideo be prompt
        = Some (None, [SubmitJob (video_prompt prompt), ConsoleError ''Video Generation Error:''])"
    by (simp add: generateVideo_def video_catch_def)
next
  assume run: "generateVideos be (video_prompt prompt) = Resolves (ops 0)
        \<and> (\<forall>k < n. \<not> op_done (ops k)
                     \<and> getVideosOperation be k (ops k) = Resolves (ops (Suc k)))"
    and fail: "\<not> op_done (ops n) \<and> getVideosOperation be n (ops n) = Rejects e"
  from run have "poll_loop be 0 (ops 0) [SubmitJob (video_prompt prompt)]
          = poll_loop be n (ops n) ([SubmitJob (video_prompt prompt)] @ poll_events 0 n)"
    by (intro poll_loop_from_submission) simp
  also from fail have "\<dots> = Some (Rejects e, ([SubmitJob (video_prompt prompt)] @ poll_events 0 n)
                                @ [Timeout 5000, StatusQuery n])"
    by (intro poll_loop_rejected) simp_all
  finally have "poll_loop be 0 (ops 0) [SubmitJob (video_prompt prompt)]
          = Some (Rejects e, ([SubmitJob (video_prompt prompt)] @ poll_events 0 n)
                                @ [Timeout 5000, StatusQuery n])" .
  with run show "\<exists>trace. generateVideo be prompt = Some (None, trace)
              \<and> trace = SubmitJob (video_prompt prompt) # poll_events 0 n
                          @ [Timeout 5000, StatusQuery n, ConsoleError ''Video Generation Error:'']
              \<and> status_queries trace = [0..<Suc n]"
    by (simp add: generateVideo_def video_catch_def)
next
  assume run: "generateVideos be (video_prompt prompt) = Resolves (ops 0)
        \<and> (\<forall>k < n. \<not> op_done (ops k)
                     \<and> getVideosOperation be k (ops k) = Resolves (ops (Suc k)))"
    and fail: "op_done (ops n) \<and> video_uri (ops n) = None"
  from run have "poll_loop be 0 (ops 0) [SubmitJob (video_prompt prompt)]
          = poll_loop be n (ops n) ([SubmitJob (video_prompt prompt)] @ poll_events 0 n)"
    by (intro poll_loop_from_submission) simp
  also from fail have "\<dots>
          = Some (Resolves (ops n), [SubmitJob (video_prompt prompt)] @ poll_events 0 n)"
    by (intro poll_loop_finished) simp
  finally have "poll_loop be 0 (ops 0) [SubmitJob (video_prompt prompt)]
          = Some (Resolves (ops n), [SubmitJob (video_prompt prompt)] @ poll_events 0 n)" .
  with run fail show "\<exists>trace. generateVideo be prompt = Some (None, trace)
              \<and> trace = SubmitJob (video_prompt prompt) # poll_events 0 n
              \<and> status_queries trace = [0..<n]"
    by (simp add: generateVideo_def)
qed


theorem generateVideo_failure_is_null_witness:
  "generateVideo (scripted_backend first_poll_rejected) ''fire''
     = Some (None, [SubmitJob (video_prompt ''fire''), Timeout 5000, StatusQuery 0,
                    ConsoleError ''Video Generation Error:''])
   \<and> generateVideo (scripted_backend second_poll_failed) ''fire''
     = Some (None, [SubmitJob (video_prompt ''fire''), Timeout 5000, StatusQuery 0,
                    Timeout 5000, StatusQuery 1])"
proof -
  let ?rejecting = "scripted_backend first_poll_rejected"
  let ?failing = "scripted_backend second_poll_failed"
  let ?ops = "\<lambda>k :: nat. if k < 2 then running_op else failed_op"
  have run0: "generateVideos ?rejecting (video_prompt ''fire'') = Resolves running_op
      \<and> (\<forall>k < 0. \<not> op_done running_op
            \<and> getVideosOperation ?rejecting k running_op = Resolves running_op)"
    by (simp add: scripted_backend_def)
  have fail0: "\<not> op_done running_op
      \<and> getVideosOperation ?rejecting 0 running_op = Rejects TransportError"
    by (simp add: scripted_backend_def first_poll_rejected_def running_op_def)
  from generateVideo_failure_is_null [of ?rejecting "''fire''" TransportError
      "\<lambda>k. running_op" 0, THEN conjunct2, THEN mp, OF run0, THEN conjunct1, THEN mp, OF fail0]
  have first: "generateVideo ?rejecting ''fire''
     = Some (None, [SubmitJob (video_prompt ''fire''), Timeout 5000, StatusQuery 0,
                    ConsoleError ''Video Generation Error:''])"
    by simp
  have run2: "generateVideos ?failing (video_prompt ''fire'') = Resolves (?ops 0)
      \<and> (\<forall>k < 2. \<not> op_done (?ops k)
            \<and> getVideosOperation ?failing k (?ops k) = Resolves (?ops (Suc k)))"
    by (auto simp: scripted_backend_def second_poll_failed_def running_op_def less_Suc_eq
        numeral_2_eq_2)
  have fail2: "op_done (?ops 2) \<and> video_uri (?ops 2) = None"
    by (simp add: failed_op_def)
  from generateVideo_failure_is_null [of ?failing "''fire''" TransportError ?ops 2,
      THEN conjunct2, THEN mp, OF run2, THEN conjunct2, THEN mp, OF fail2]
  have "generateVideo ?failing ''fire''
     = Some (None, SubmitJob (video_prompt ''fire'') # poll_events 0 2)"
    by simp
  then have "generateVideo ?failing ''fire''
     = Some (None, [SubmitJob (video_prompt ''fire''), Timeout 5000, StatusQuery 0,
                    Timeout 5000, StatusQuery 1])"
    by (simp add: numeral_2_eq_2)
  with first show ?thesis ..
qed

text \<open>
  A rejected status query and a job reported as failed (with its error in the payload)
  both end in the promise resolving with null.
\<close>

theorem generateVideo_failure_counterexample:
  "map_option fst (generateVideo (scripted_backend first_poll_rejected) ''fire'') = Some None
   \<and> op_error failed_op = Some ''quota exceeded''
   \<and> map_option fst (generateVideo (scripted_backend second_poll_failed) ''fire'') = Some None"
proof -
  have "poll_loop (scripted_backend first_poll_rejected) 0 running_op t
          = Some (Rejects TransportError, t @ [Timeout 5000, StatusQuery 0])" for t
    by (rule poll_loop_rejected)
       (simp_all add: scripted_backend_def first_poll_rejected_def running_op_def)
  then have "map_option fst (generateVideo (scripted_backend first_poll_rejected) ''fire'')
               = Some None"
    by (simp add: generateVideo_def video_catch_def scripted_backend_def)
  moreover have "poll_loop (scripted_backend second_poll_failed) 0 running_op t
          = Some (Resolves failed_op,
                  t @ [Timeout 5000, StatusQuery 0, Timeout 5000, StatusQuery (Suc 0)])" for t
    by (simp add: poll_loop.simps [of _ 0] poll_loop.simps [of _ "Suc 0"] poll_loop_finished
        scripted_backend_def second_poll_failed_def running_op_def failed_op_def)
  then have "map_option fst (generateVideo (scripted_backend second_poll_failed) ''fire'')
               = Some None"
    by (simp add: generateVideo_def scripted_backend_def failed_op_def)
  ultimately show ?thesis
    by (simp add: failed_op_def)
qed

section \<open>The analysis guard\<close>

lemma analyzeImagery_error:
  "analyzeImagery env (Rejects e) img reg = (None, [''Gemini Analysis Error:''])"
  "JSON_parse env (text_or_default (response_text response)) = None \<Longrightarrow>
     analyzeImagery env (Resolves response) img reg = (None, [''Gemini Analysis Error:''])"
  "JSON_parse env (text_or_default (response_text response)) = Some JNull \<Longrightarrow>
     analyzeImagery env (Resolves response) img reg = (None, [''Gemini Analysis Error:''])"
  by (simp_all add: analyzeImagery_def analysis_catch_def)

lemma analyzeImagery_parsed:
  "JSON_parse env (text_or_default (response_text response)) = Some data \<Longrightarrow> data \<noteq> JNull \<Longrightarrow>
     analyzeImagery env (Resolves response) img reg
       = (if \<not> truthy (member data ''type'') then (None, [])
          else if js_less (ToNumber env (member data ''confidence'')) (Finite 0.4) then (None, [])
          else (Some (materialize env response data img reg), []))"
  by (simp add: analyzeImagery_def)

lemma analyzeImagery_numeric_threshold:
  assumes "JSON_parse env (text_or_default (response_text response)) = Some data"
    and "member data ''type'' = Some (JString t)"
    and "member data ''confidence'' = Some (JNumber (Finite c))"
  shows "fst (analyzeImagery env (Resolves response) img reg)
           = (if 0.4 \<le> c \<and> t \<noteq> [] then Some (materialize env response data img reg) else None)"
proof -
  from assms(2) have "data \<noteq> JNull"
    by (auto simp: member_def)
  with assms show ?thesis
    by (simp add: analyzeImagery_parsed not_less)
qed

lemma analyzeImagery_no_confidence:
  assumes "JSON_parse env (text_or_default (response_text response)) = Some data"
    and "truthy (member data ''type'')"
    and "member data ''confidence'' = None"
  shows "fst (analyzeImagery env (Resolves response) img reg)
           = Some (materialize env response data img reg)"
proof -
  from assms(2) have "data \<noteq> JNull"
    by (auto simp: member_def)
  with assms show ?thesis
    by (simp add: analyzeImagery_parsed)
qed

lemma handleFileUpload_null:
  "fst (analyzeImagery env reply img reg) = None \<Longrightarrow>
     handleFileUpload env reply img reg clock st
       = st\<lparr>agentLog := addLog (clock 2)
                ''Sector scan complete. No critical threats identified.''
                (addLog (clock 1) ''Analyzing change signatures & grounding facts...''
                   (addLog (clock 0) (''Ingesting satellite sector imagery for '' @ reg @ ''...'')
                      (agentLog st))),
            isAnalyzing := False\<rparr>"
  by (simp add: handleFileUpload_def analyzeImagery_promise_def Let_def)

lemma handleFileUpload_stores:
  "fst (analyzeImagery env reply img reg) = Some r \<Longrightarrow>
     incidents (handleFileUpload env reply img reg clock st) = r # incidents st"
  by (simp add: handleFileUpload_def analyzeImagery_promise_def Let_def)

lemma handleFileUpload_error_branch_dead:
  "hd (agentLog (handleFileUpload env reply img reg clock st))
     \<noteq> log_entry (clock 2) ''ERROR: Satellite uplink interrupted. Check vision module.''"
  by (cases "fst (analyzeImagery env reply img reg)")
     (simp_all add: handleFileUpload_def analyzeImagery_promise_def Let_def addLog_def
        log_entry_def)

text \<open>
  C1. A record is to be materialized only when the parsed result has a confidence of at
  least 0.4 and a category that is not empty. For a reply with a numeric confidence the
  guard does that (\<open>analyzeImagery_numeric_threshold\<close>: null for 0.39 or an empty
  category, the record for 0.40 with a category). The reply \<^verbatim>\<open>{"type":"Illegal Logging"}\<close>
  has no confidence: \<^verbatim>\<open>undefined < 0.4\<close> is false, the guard lets it pass, the function
  returns a record whose confidence is \<^verbatim>\<open>undefined\<close>, and the caller puts it into the
  incident list.
\<close>

theorem analyzeImagery_missing_confidence:
  "fst (analyzeImagery example_env (Resolves (example_response ''{\"type\":\"Illegal Logging\"}''))
          ''QUJD'' ''Mau Forest'')
     = Some (materialize example_env (example_response ''{\"type\":\"Illegal Logging\"}'')
               (JObject [(''type'', JString ''Illegal Logging'')]) ''QUJD'' ''Mau Forest'')
   \<and> report_type (materialize example_env (example_response ''{\"type\":\"Illegal Logging\"}'')
        (JObject [(''type'', JString ''Illegal Logging'')]) ''QUJD'' ''Mau Forest'')
     = Some (JString ''Illegal Logging'')
   \<and> report_confidence (materialize example_env (example_response ''{\"type\":\"Illegal Logging\"}'')
        (JObject [(''type'', JString ''Illegal Logging'')]) ''QUJD'' ''Mau Forest'')
     = None
   \<and> incidents (handleFileUpload example_env
        (Resolves (example_response ''{\"type\":\"Illegal Logging\"}'')) ''QUJD'' ''Mau Forest''
        (\<lambda>k. ''10:00:00'') empty_registry)
     = [materialize example_env (example_response ''{\"type\":\"Illegal Logging\"}'')
          (JObject [(''type'', JString ''Illegal Logging'')]) ''QUJD'' ''Mau Forest'']"
proof -
  let ?reply = "example_response ''{\"type\":\"Illegal Logging\"}''"
  let ?data = "JObject [(''type'', JString ''Illegal Logging'')]"
  have parse: "JSON_parse example_env (text_or_default (response_text ?reply)) = Some ?data"
    by (simp add: example_env_def example_response_def example_parse_def text_or_default_def)
  have ty: "member ?data ''type'' = Some (JString ''Illegal Logging'')"
    and conf: "member ?data ''confidence'' = None"
    by (simp_all add: member_def)
  have r: "fst (analyzeImagery example_env (Resolves ?reply) ''QUJD'' ''Mau Forest'')
             = Some (materialize example_env ?reply ?data ''QUJD'' ''Mau Forest'')"
    by (rule analyzeImagery_no_confidence [OF parse _ conf]) (simp add: ty)
  from handleFileUpload_stores [OF r, of "\<lambda>k. ''10:00:00''" empty_registry]
  have "incidents (handleFileUpload example_env (Resolves ?reply) ''QUJD'' ''Mau Forest''
           (\<lambda>k. ''10:00:00'') empty_registry)
          = [materialize example_env ?reply ?data ''QUJD'' ''Mau Forest'']"
    by (simp add: empty_registry_def)
  with r ty conf show ?thesis
    by (simp add: materialize_def)
qed

text \<open>
  C2. A transport error during analysis is to be told apart by the caller from the null
  of a valid result below the threshold. The caller has a branch for it, which logs that
  the uplink was interrupted, but \<open>analyzeImagery\<close> turns the error into null before
  the caller sees it: after a rejected request the caller has the same null, the same
  state and the same log line, that the scan is complete and found no threat, as after a
  valid analysis of confidence 0.39 (\<open>handleFileUpload_error_branch_dead\<close>: for no
  reply at all is the interrupted uplink logged).
\<close>

theorem handleFileUpload_transport_error:
  "fst (analyzeImagery example_env (Rejects TransportError) ''QUJD'' ''Mau Forest'') = None
   \<and> fst (analyzeImagery example_env (Resolves (example_response ''low'')) ''QUJD'' ''Mau Forest'')
       = None
   \<and> handleFileUpload example_env (Rejects TransportError) ''QUJD'' ''Mau Forest''
        (\<lambda>k. ''10:00:00'') empty_registry
     = handleFileUpload example_env (Resolves (example_response ''low'')) ''QUJD'' ''Mau Forest''
        (\<lambda>k. ''10:00:00'') empty_registry
   \<and> hd (agentLog (handleFileUpload example_env (Rejects TransportError) ''QUJD'' ''Mau Forest''
          (\<lambda>k. ''10:00:00'') empty_registry))
     = ''[10:00:00] Sector scan complete. No critical threats identified.''"
proof -
  have parse: "JSON_parse example_env (text_or_default (response_text (example_response ''low'')))
                 = Some (example_analysis 0.39)"
    by (simp add: example_env_def example_response_def example_parse_def text_or_default_def)
  have "fst (analyzeImagery example_env (Resolves (example_response ''low'')) ''QUJD''
               ''Mau Forest'') = None"
    using analyzeImagery_numeric_threshold [OF parse, of "''Illegal Logging''" "0.39"]
    by (simp add: example_analysis_def member_def)
  moreover have "fst (analyzeImagery example_env (Rejects TransportError) ''QUJD''
               ''Mau Forest'') = None"
    by (simp add: analyzeImagery_error)
  ultimately show ?thesis
    by (simp add: handleFileUpload_null addLog_def log_entry_def)
qed

section \<open>The streamed transcript\<close>

lemma set_last_text_snoc [simp]:
  "set_last_text (ms @ [m]) t = ms @ [m\<lparr>msg_text := t\<rparr>]"
  by (simp add: set_last_text_def)

lemma model_message_text [simp]: "(model_message s)\<lparr>msg_text := t\<rparr> = model_message t"
  by (simp add: model_message_def)

lemma settled_render [simp]: "settled ft' (render ft q) = settled ft q"
  by (simp add: settled_def render_def Let_def)

lemma settled_enqueue [simp]:
  "settled ft (enqueue u q) = run_updater ft (settled ft q) u"
  by (simp add: settled_def enqueue_def)

lemma rendered_enqueue [simp]: "rendered (enqueue u q) = rendered q"
  by (simp add: enqueue_def)

lemma pending_enqueue [simp]: "pending (enqueue u q) \<noteq> []"
  by (simp add: enqueue_def)

lemma rendered_render:
  "rendered (render ft q) = rendered q @ (if pending q = [] then [] else [settled ft q])"
  by (simp add: settled_def render_def Let_def)

lemma committed_render: "committed (render ft q) = settled ft q"
  by (simp add: settled_def render_def Let_def)

lemma pending_render [simp]: "pending (render ft q) = []"
  by (simp add: render_def Let_def)

lemma render_keeps_last:
  "(pending q = [] \<longrightarrow> rendered q \<noteq> [] \<and> last (rendered q) = committed q) \<Longrightarrow>
     rendered (render ft q) \<noteq> [] \<and> last (rendered (render ft q)) = committed (render ft q)"
  by (auto simp: render_def Let_def)

lemma await_cases:
  "await b ft q = q \<or> (b \<and> await b ft q = render ft q)"
  by (simp add: await_def)

lemma stream_loop_any_schedule:
  assumes "\<forall>ft'. \<exists>s. settled ft' q = base @ [model_message s]"
    and "settled ft q = base @ [model_message ft]"
    and "pending q = [] \<longrightarrow> rendered q \<noteq> [] \<and> last (rendered q) = committed q"
  shows "\<exists>q' js. stream_loop renders k ft q (map text_chunk fs) = (ft @ concat fs, q')
           \<and> settled (ft @ concat fs) q' = base @ [model_message (ft @ concat fs)]
           \<and> (pending q' = [] \<longrightarrow> rendered q' \<noteq> [] \<and> last (rendered q') = committed q')
           \<and> sorted js \<and> (\<forall>j \<in> set js. j \<le> length fs)
           \<and> rendered q'
               = rendered q @ map (\<lambda>j. base @ [model_message (ft @ concat (take j fs))]) js"
  using assms
proof (induction fs arbitrary: k ft q)
  case Nil
  let ?q' = "await (renders k) ft q"
  have s: "settled ft ?q' = base @ [model_message ft]"
    using Nil.prems(2) by (simp add: await_def)
  have l: "pending ?q' = [] \<longrightarrow> rendered ?q' \<noteq> [] \<and> last (rendered ?q') = committed ?q'"
    using render_keeps_last [OF Nil.prems(3), of ft] Nil.prems(3) by (simp add: await_def)
  have "\<exists>js. sorted js \<and> (\<forall>j \<in> set js. j \<le> (0::nat))
          \<and> rendered ?q' = rendered q @ map (\<lambda>j. base @ [model_message ft]) js"
  proof (cases "renders k \<and> pending q \<noteq> []")
    case True
    then have "rendered ?q' = rendered q @ map (\<lambda>j. base @ [model_message ft]) [0::nat]"
      using Nil.prems(2) by (simp add: await_def rendered_render)
    then show ?thesis by (intro exI [of _ "[0]"]) simp
  next
    case False
    then have "rendered ?q' = rendered q @ map (\<lambda>j. base @ [model_message ft]) ([]::nat list)"
      by (auto simp: await_def rendered_render)
    then show ?thesis by (intro exI [of _ "[]"]) simp
  qed
  with s l show ?case by auto
next
  case (Cons f fs)
  let ?q1 = "await (renders k) ft q"
  let ?q2 = "enqueue SetLastText ?q1"
  have s1: "\<forall>ft'. \<exists>s. settled ft' ?q1 = base @ [model_message s]"
    using Cons.prems(1,2) by (auto simp: await_def)
  have j2: "\<forall>ft'. \<exists>s. settled ft' ?q2 = base @ [model_message s]"
  proof
    fix ft'
    from s1 obtain s where "settled ft' ?q1 = base @ [model_message s]" by blast
    then have "settled ft' ?q2 = base @ [model_message ft']" by simp
    then show "\<exists>s. settled ft' ?q2 = base @ [model_message s]" by blast
  qed
  have i2: "settled (ft @ f) ?q2 = base @ [model_message (ft @ f)]"
  proof -
    from s1 obtain s where "settled (ft @ f) ?q1 = base @ [model_message s]" by blast
    then show ?thesis by simp
  qed
  have k2: "pending ?q2 = [] \<longrightarrow> rendered ?q2 \<noteq> [] \<and> last (rendered ?q2) = committed ?q2"
    by simp
  from Cons.IH [OF j2 i2 k2, of "Suc k"]
  obtain q' js where r: "stream_loop renders (Suc k) (ft @ f) ?q2 (map text_chunk fs)
        = ((ft @ f) @ concat fs, q')"
    "settled ((ft @ f) @ concat fs) q' = base @ [model_message ((ft @ f) @ concat fs)]"
    "pending q' = [] \<longrightarrow> rendered q' \<noteq> [] \<and> last (rendered q') = committed q'"
    "sorted js" "\<forall>j \<in> set js. j \<le> length fs"
    "rendered q' = rendered ?q2
        @ map (\<lambda>j. base @ [model_message ((ft @ f) @ concat (take j fs))]) js"
    by blast
  have step: "stream_loop renders k ft q (map text_chunk (f # fs))
                = stream_loop renders (Suc k) (ft @ f) ?q2 (map text_chunk fs)"
    by (simp add: text_chunk_def template_string_def)
  have shift: "map (\<lambda>j. base @ [model_message ((ft @ f) @ concat (take j fs))]) js
        = map (\<lambda>j. base @ [model_message (ft @ concat (take j (f # fs)))]) (map Suc js)"
    by (simp add: comp_def)
  have "\<exists>js0. sorted js0 \<and> (\<forall>j \<in> set js0. j \<le> length (f # fs))
          \<and> rendered q' = rendered q
               @ map (\<lambda>j. base @ [model_message (ft @ concat (take j (f # fs)))]) js0"
  proof (cases "renders k \<and> pending q \<noteq> []")
    case True
    then have "rendered ?q2 = rendered q
         @ map (\<lambda>j. base @ [model_message (ft @ concat (take j (f # fs)))]) [0]"
      using Cons.prems(2) by (simp add: await_def rendered_render)
    with r(6) shift have "rendered q' = rendered q
         @ map (\<lambda>j. base @ [model_message (ft @ concat (take j (f # fs)))]) (0 # map Suc js)"
      by simp
    moreover have "sorted (0 # map Suc js)"
      using r(4) by (simp add: sorted_map)
    moreover have "\<forall>j \<in> set (0 # map Suc js). j \<le> length (f # fs)"
      using r(5) by auto
    ultimately show ?thesis by blast
  next
    case False
    then have "rendered ?q2 = rendered q"
      by (auto simp: await_def rendered_render)
    with r(6) shift have "rendered q' = rendered q
         @ map (\<lambda>j. base @ [model_message (ft @ concat (take j (f # fs)))]) (map Suc js)"
      by simp
    moreover have "sorted (map Suc js)"
      using r(4) by (simp add: sorted_map)
    moreover have "\<forall>j \<in> set (map Suc js). j \<le> length (f # fs)"
      using r(5) by auto
    ultimately show ?thesis by blast
  qed
  with step r(1,2,3) show ?case by auto
qed


lemma stream_loop_always_rendered:
  assumes "\<forall>k. renders k"
    and "\<forall>ft'. \<exists>s. settled ft' q = base @ [model_message s]"
    and "settled ft q = base @ [model_message ft]"
    and "pending q \<noteq> []"
  shows "\<exists>q'. stream_loop renders k ft q (map text_chunk fs) = (ft @ concat fs, q')
           \<and> pending q' = [] \<and> committed q' = base @ [model_message (ft @ concat fs)]
           \<and> rendered q'
               = rendered q @ map (\<lambda>j. base @ [model_message (ft @ concat (take j fs))])
                                [0..<Suc (length fs)]"
  using assms(2-)
proof (induction fs arbitrary: k ft q)
  case Nil
  then show ?case
    using assms(1) by (simp add: await_def rendered_render committed_render)
next
  case (Cons f fs)
  let ?q1 = "render ft q"
  let ?q2 = "enqueue SetLastText ?q1"
  have j2: "\<forall>ft'. \<exists>s. settled ft' ?q2 = base @ [model_message s]"
  proof
    fix ft'
    have "settled ft' ?q2 = base @ [model_message ft']"
      using Cons.prems(2) by simp
    then show "\<exists>s. settled ft' ?q2 = base @ [model_message s]" by blast
  qed
  have i2: "settled (ft @ f) ?q2 = base @ [model_message (ft @ f)]"
    using Cons.prems(2) by simp
  from Cons.IH [OF j2 i2 pending_enqueue, of "Suc k"]
  obtain q' where r: "stream_loop renders (Suc k) (ft @ f) ?q2 (map text_chunk fs)
        = ((ft @ f) @ concat fs, q')"
    "pending q' = []" "committed q' = base @ [model_message ((ft @ f) @ concat fs)]"
    "rendered q' = rendered ?q2
        @ map (\<lambda>j. base @ [model_message ((ft @ f) @ concat (take j fs))]) [0..<Suc (length fs)]"
    by blast
  have step: "stream_loop renders k ft q (map text_chunk (f # fs))
                = stream_loop renders (Suc k) (ft @ f) ?q2 (map text_chunk fs)"
    using assms(1) by (simp add: text_chunk_def template_string_def await_def)
  have idx: "[0..<Suc (length (f # fs))] = 0 # map Suc [0..<Suc (length fs)]"
    by (simp add: upt_conv_Cons map_Suc_upt del: upt_Suc)
  have "rendered q' = rendered q
      @ map (\<lambda>j. base @ [model_message (ft @ concat (take j (f # fs)))]) [0..<Suc (length (f # fs))]"
    unfolding idx using r(4) Cons.prems(2,3)
    by (simp add: rendered_render comp_def del: upt_Suc)
  with step r(1,2,3) show ?case by simp
qed

lemma handleSend_first_queue:
  "settled ft' (enqueue (AppendMessage (model_message []))
       (await b [] (enqueue (AppendMessage (user_message u))
          \<lparr>committed = ms, pending = [], rendered = []\<rparr>)))
     = (ms @ [user_message u]) @ [model_message []]"
  "rendered (enqueue (AppendMessage (model_message []))
       (await b [] (enqueue (AppendMessage (user_message u))
          \<lparr>committed = ms, pending = [], rendered = []\<rparr>)))
     = (if b then [ms @ [user_message u]] else [])"
  by (simp_all add: await_def rendered_render, simp_all add: settled_def enqueue_def)

text \<open>
  C7, as the code has it. For every finite sequence of streamed fragments f1, ..., fn
  that carry text, empty texts included, sent in answer to a message that is not blank
  while no other send is under way, and for every way React may place its renders at
  the awaits of the handler: the transcript ends with the model's message whose text is
  f1 + ... + fn; every message list rendered after the user's message shows the
  concatenation of the first j fragments for some j, the j never decrease from one render
  to the next, and the last list rendered is the final transcript, so that no fragment is
  skipped or reordered. When React renders at every await, the lists rendered are those
  for j = 0, ..., n, so that the first k fragments are shown before fragment k + 1 is
  applied; a prefix over which React does not render is never shown.
\<close>

theorem handleSend_accumulates:
  assumes "trim (inputValue st) \<noteq> []" and "\<not> isLoading st"
  shows "\<exists>final shown js.
           handleSend trim renders (Streamed (map text_chunk fs) None) st = (final, shown)
           \<and> messages final
               = messages st @ [user_message (trim (inputValue st)), model_message (concat fs)]
           \<and> shown \<noteq> [] \<and> last shown = messages final
           \<and> sorted js \<and> (\<forall>j \<in> set js. j \<le> length fs)
           \<and> shown = (if renders 0 then [messages st @ [user_message (trim (inputValue st))]]
                       else [])
                      @ map (\<lambda>j. messages st @ [user_message (trim (inputValue st)),
                                                   model_message (concat (take j fs))]) js
           \<and> ((\<forall>k. renders k) \<longrightarrow> js = [0..<Suc (length fs)])"
proof -
  let ?base = "messages st @ [user_message (trim (inputValue st))]"
  let ?q2 = "enqueue (AppendMessage (model_message []))
       (await (renders 0) [] (enqueue (AppendMessage (user_message (trim (inputValue st))))
          \<lparr>committed = messages st, pending = [], rendered = []\<rparr>))"
  let ?show = "\<lambda>j. ?base @ [model_message (concat (take j fs))]"
  let ?end = "?base @ [model_message (concat fs)]"
  have j2: "\<forall>ft'. \<exists>s. settled ft' ?q2 = ?base @ [model_message s]"
    by (simp only: handleSend_first_queue) blast
  have i2: "settled [] ?q2 = ?base @ [model_message []]"
    by (simp only: handleSend_first_queue)
  have k2: "pending ?q2 = [] \<longrightarrow> rendered ?q2 \<noteq> [] \<and> last (rendered ?q2) = committed ?q2"
    by simp
  have r2: "rendered ?q2 = (if renders 0 then [?base] else [])"
    by (simp only: handleSend_first_queue)
  have hs: "handleSend trim renders (Streamed (map text_chunk fs) None) st
      = (st\<lparr>messages := committed (render ft q'), inputValue := [], isLoading := False\<rparr>,
         rendered (render ft q'))"
    if "stream_loop renders 1 [] ?q2 (map text_chunk fs) = (ft, q')" for ft q'
    using assms that by (simp add: handleSend_def Let_def)
  let ?P = "\<lambda>q js. handleSend trim renders (Streamed (map text_chunk fs) None) st
        = (st\<lparr>messages := committed q, inputValue := [], isLoading := False\<rparr>, rendered q)
      \<and> committed q = ?end \<and> rendered q \<noteq> [] \<and> last (rendered q) = ?end
      \<and> sorted js \<and> (\<forall>j \<in> set js. j \<le> length fs)
      \<and> rendered q = (if renders 0 then [?base] else []) @ map ?show js
      \<and> ((\<forall>k. renders k) \<longrightarrow> js = [0..<Suc (length fs)])"
  obtain q :: message_queue and js where "?P q js"
  proof (cases "\<forall>k. renders k")
    case True
    from stream_loop_always_rendered [OF True j2 i2 pending_enqueue, of 1 fs]
    obtain q' where r: "stream_loop renders 1 [] ?q2 (map text_chunk fs) = (concat fs, q')"
      "pending q' = []" "committed q' = ?end"
      "rendered q' = rendered ?q2 @ map ?show [0..<Suc (length fs)]"
      by auto
    have fin: "render (concat fs) q' = q'"
      using r(2) by (simp add: render_def)
    have sh: "rendered q' = (if renders 0 then [?base] else []) @ map ?show [0..<Suc (length fs)]"
      using r(4) r2 by simp
    have la: "last (rendered q') = ?end"
      unfolding sh by (simp add: last_map del: upt_Suc)
    have ne: "rendered q' \<noteq> []"
      unfolding sh by (simp del: upt_Suc)
    have so: "sorted [0..<Suc (length fs)]" "\<forall>j \<in> set [0..<Suc (length fs)]. j \<le> length fs"
      by (simp_all del: upt_Suc)
    from hs [OF r(1)] fin r(3) ne la so sh have "?P q' [0..<Suc (length fs)]"
      by (simp del: upt_Suc)
    then show ?thesis by (rule that)
  next
    case False
    from stream_loop_any_schedule [OF j2 i2 k2, of renders 1 fs]
    obtain q' js where r0: "stream_loop renders 1 [] ?q2 (map text_chunk fs) = ([] @ concat fs, q')"
      "settled ([] @ concat fs) q' = ?base @ [model_message ([] @ concat fs)]"
      "pending q' = [] \<longrightarrow> rendered q' \<noteq> [] \<and> last (rendered q') = committed q'"
      "sorted js" "\<forall>j \<in> set js. j \<le> length fs"
      "rendered q' = rendered ?q2
         @ map (\<lambda>j. ?base @ [model_message ([] @ concat (take j fs))]) js"
      by blast
    then have r: "stream_loop renders 1 [] ?q2 (map text_chunk fs) = (concat fs, q')"
      "settled (concat fs) q' = ?end"
      "pending q' = [] \<longrightarrow> rendered q' \<noteq> [] \<and> last (rendered q') = committed q'"
      "sorted js" "\<forall>j \<in> set js. j \<le> length fs"
      "rendered q' = rendered ?q2 @ map ?show js"
      by simp_all
    let ?q = "render (concat fs) q'"
    let ?js = "js @ (if pending q' = [] then [] else [length fs])"
    have c: "committed ?q = ?end"
      using r(2) by (simp add: committed_render)
    have l: "rendered ?q \<noteq> [] \<and> last (rendered ?q) = committed ?q"
      by (rule render_keeps_last [OF r(3)])
    have sh: "rendered ?q = (if renders 0 then [?base] else []) @ map ?show ?js"
      using r(2,6) r2 by (simp add: rendered_render)
    have so: "sorted ?js"
      using r(4,5) by (simp add: sorted_append)
    have bd: "\<forall>j \<in> set ?js. j \<le> length fs"
      using r(5) by simp
    have la: "last (rendered ?q) = ?end" and ne: "rendered ?q \<noteq> []"
      using l c by simp_all
    have im: "(\<forall>k. renders k) \<longrightarrow> ?js = [0..<Suc (length fs)]"
      using False by blast
    have "?P ?q ?js"
      by (intro conjI) (rule hs [OF r(1)] c ne la so bd sh im)+
    then show ?thesis by (rule that)
  qed
  then have m: "handleSend trim renders (Streamed (map text_chunk fs) None) st
        = (st\<lparr>messages := committed q, inputValue := [], isLoading := False\<rparr>, rendered q)"
      "committed q = ?end" "rendered q \<noteq> []" "last (rendered q) = ?end"
      "sorted js" "\<forall>j \<in> set js. j \<le> length fs"
      "rendered q = (if renders 0 then [?base] else []) @ map ?show js"
      "(\<forall>k. renders k) \<longrightarrow> js = [0..<Suc (length fs)]"
    by blast+
  show ?thesis
  proof (intro exI conjI)
    show "handleSend trim renders (Streamed (map text_chunk fs) None) st
        = (st\<lparr>messages := committed q, inputValue := [], isLoading := False\<rparr>, rendered q)"
      by (rule m(1))
    show "messages (st\<lparr>messages := committed q, inputValue := [], isLoading := False\<rparr>)
        = messages st @ [user_message (trim (inputValue st)), model_message (concat fs)]"
      using m(2) by simp
    show "rendered q \<noteq> []" by (rule m(3))
    show "last (rendered q)
        = messages (st\<lparr>messages := committed q, inputValue := [], isLoading := False\<rparr>)"
      using m(2,4) by simp
    show "sorted js" by (rule m(5))
    show "\<forall>j \<in> set js. j \<le> length fs" by (rule m(6))
    show "rendered q = (if renders 0 then [messages st @ [user_message (trim (inputValue st))]]
                       else [])
                      @ map (\<lambda>j. messages st @ [user_message (trim (inputValue st)),
                                                   model_message (concat (take j fs))]) js"
      using m(7) by simp
    show "(\<forall>k. renders k) \<longrightarrow> js = [0..<Suc (length fs)]" by (rule m(8))
  qed
qed

theorem handleSend_accumulates_witness:
  "ascii_trim (inputValue example_chat) = ''any alerts?''
   \<and> (\<exists>final shown.
         handleSend ascii_trim (\<lambda>k. True)
             (Streamed (map text_chunk [''Two '', [], ''alerts.'']) None) example_chat
           = (final, shown)
         \<and> messages final
             = initial_messages @ [user_message ''any alerts?'', model_message ''Two alerts.'']
         \<and> map (\<lambda>msgs. msg_text (last msgs)) shown
             = [''any alerts?'', [], ''Two '', ''Two '', ''Two alerts.''])"
proof -
  have t: "ascii_trim (inputValue example_chat) = ''any alerts?''"
    by (simp add: example_chat_def ascii_trim_def is_space_def)
  then have ne: "ascii_trim (inputValue example_chat) \<noteq> []"
    by simp
  have idle: "\<not> isLoading example_chat"
    by (simp add: example_chat_def)
  from handleSend_accumulates [where trim = ascii_trim and st = example_chat
      and renders = "\<lambda>k. True" and fs = "[''Two '', [], ''alerts.'']", OF ne idle]
  obtain final shown js where r:
    "handleSend ascii_trim (\<lambda>k. True)
         (Streamed (map text_chunk [''Two '', [], ''alerts.'']) None) example_chat
       = (final, shown)"
    "messages final = messages example_chat
       @ [user_message (ascii_trim (inputValue example_chat)),
          model_message (concat [''Two '', [], ''alerts.''])]"
    "shown = (if True then [messages example_chat
                              @ [user_message (ascii_trim (inputValue example_chat))]]
              else [])
       @ map (\<lambda>j. messages example_chat
                     @ [user_message (ascii_trim (inputValue example_chat)),
                        model_message (concat (take j [''Two '', [], ''alerts.'']))]) js"
    "(\<forall>k :: nat. True) \<longrightarrow> js = [0..<Suc (length [''Two '', [], ''alerts.''])]"
    by blast
  from r(4) have js: "js = [0, 1, 2, 3]"
    by (simp add: upt_rec)
  have m: "messages final
      = initial_messages @ [user_message ''any alerts?'', model_message ''Two alerts.'']"
    using r(2) t by (simp add: example_chat_def)
  have sh: "map (\<lambda>msgs. msg_text (last msgs)) shown
      = [''any alerts?'', [], ''Two '', ''Two '', ''Two alerts.'']"
    unfolding r(3) js t
    by (simp add: user_message_def model_message_def numeral_2_eq_2 numeral_3_eq_3)
  show ?thesis
    by (rule conjI [OF t], rule exI [of _ final], rule exI [of _ shown])
      (intro conjI, rule r(1), rule m, rule sh)
qed

text \<open>
  Two fragments over which React does not render: the only list ever rendered is the
  final one, and the text after the first fragment is never shown.
\<close>

theorem handleSend_prefix_counterexample:
  "snd (handleSend ascii_trim (\<lambda>k. False) (Streamed (map text_chunk [''Two '', ''alerts.'']) None)
          example_chat)
     = [initial_messages @ [user_message ''any alerts?'', model_message ''Two alerts.'']]
   \<and> ''Two '' \<notin> set (map (\<lambda>msgs. msg_text (last msgs))
         (snd (handleSend ascii_trim (\<lambda>k. False)
                 (Streamed (map text_chunk [''Two '', ''alerts.'']) None) example_chat)))"
proof -
  have "snd (handleSend ascii_trim (\<lambda>k. False)
               (Streamed (map text_chunk [''Two '', ''alerts.'']) None) example_chat)
     = [initial_messages @ [user_message ''any alerts?'', model_message ''Two alerts.'']]"
    by (simp add: handleSend_def Let_def await_def render_def enqueue_def text_chunk_def
        template_string_def set_last_text_def example_chat_def ascii_trim_def is_space_def
        model_message_def user_message_def initial_messages_def)
  then show ?thesis
    by (simp add: model_message_def)
qed

text \<open>
  A chunk without text is no fragment in the sense above: its \<^verbatim>\<open>text\<close> is
  \<^verbatim>\<open>undefined\<close>, and the accumulator receives the word.
\<close>

lemma handleSend_textless_chunk:
  "map msg_text (messages (fst (handleSend ascii_trim (\<lambda>k. True)
       (Streamed [text_chunk ''Two '', \<lparr>chunk_text = None\<rparr>, text_chunk ''alerts.''] None)
       example_chat)))
     = [msg_text (hd initial_messages), ''any alerts?'', ''Two undefinedalerts.'']"
  by (simp add: handleSend_def Let_def await_def render_def enqueue_def text_chunk_def
      template_string_def set_last_text_def example_chat_def ascii_trim_def is_space_def
      model_message_def user_message_def initial_messages_def)

section \<open>The exported CSV\<close>

lemma split_lines_no_LF: "LF \<notin> set a \<Longrightarrow> split_lines a = [a]"
  by (induction a) auto

lemma split_lines_append_LF:
  "LF \<notin> set a \<Longrightarrow> split_lines (a @ LF # rest) = a # split_lines rest"
  by (induction a) auto

lemma set_join: "set (join sep xs) \<subseteq> set sep \<union> \<Union> (set ` set xs)"
  by (induction sep xs rule: join.induct) auto

lemma LF_not_in_join:
  "LF \<notin> set sep \<Longrightarrow> \<forall>cell \<in> set cells. LF \<notin> set cell \<Longrightarrow> LF \<notin> set (join sep cells)"
  using set_join [of sep cells] by auto

lemma count_escape_quotes: "count_list (escape_quotes d) dquote = 2 * count_list d dquote"
  by (induction d) auto

lemma unescape_escape: "unescape_quotes (escape_quotes d) = d"
proof (induction d)
  case Nil
  then show ?case by simp
next
  case (Cons c cs)
  show ?case
  proof (cases "c = dquote")
    case True
    with Cons show ?thesis by simp
  next
    case False
    with Cons show ?thesis
      by (cases "escape_quotes cs") simp_all
  qed
qed

lemma others_escape_quotes: "filter (\<lambda>c. c \<noteq> dquote) (escape_quotes d) = filter (\<lambda>c. c \<noteq> dquote) d"
  by (induction d) auto

lemma csv_text_two:
  "csv_text fmt [a, b]
     = ''ID,Timestamp,Type,Severity,Region,Status,Confidence,Description'' @ [LF]
       @ join '','' (csv_row fmt a) @ [LF] @ join '','' (csv_row fmt b)"
  by (simp add: csv_text_def csv_headers_def)

lemma header_no_LF: "LF \<notin> set ''ID,Timestamp,Type,Severity,Region,Status,Confidence,Description''"
  by (simp add: LF_def)

text \<open>
  C9, as the code has it. The export of two records is a link to a data URI, named
  \<open>mazingira_reports_\<close> plus the time plus \<open>.csv\<close>, whose text is the header
  \<open>ID,Timestamp,Type,Severity,Region,Status,Confidence,Description\<close> and the two data
  rows, joined by two line feeds; whenever no cell of the two rows contains a line feed,
  these are exactly the three lines of the output. The last cell of a row is the
  description between double quotes, with every double quote of the description written
  twice: the quoted text has twice as many double quotes as the description, and reading
  each pair as one gives the description back.
\<close>

theorem csv_export_two_records:
  "(incidents st = [a, b] \<longrightarrow>
      fst (handleExportCSV fmt now_iso now st)
        = Some \<lparr>href = encodeURI fmt (''data:text/csv;charset=utf-8,'' @ csv_text fmt [a, b]),
                  download_name = ''mazingira_reports_'' @ now_iso @ ''.csv''\<rparr>)
   \<and> csv_text fmt [a, b]
     = ''ID,Timestamp,Type,Severity,Region,Status,Confidence,Description'' @ [LF]
       @ join '','' (csv_row fmt a) @ [LF] @ join '','' (csv_row fmt b)
   \<and> ((\<forall>cell \<in> set (csv_row fmt a) \<union> set (csv_row fmt b). LF \<notin> set cell) \<longrightarrow>
        split_lines (csv_text fmt [a, b])
          = [''ID,Timestamp,Type,Severity,Region,Status,Confidence,Description'',
             join '','' (csv_row fmt a), join '','' (csv_row fmt b)])
   \<and> csv_row fmt a ! 7 = [dquote] @ escape_quotes (description a) @ [dquote]
   \<and> count_list (escape_quotes (description a)) dquote = 2 * count_list (description a) dquote
   \<and> unescape_quotes (escape_quotes (description a)) = description a"
proof -
  have "split_lines (csv_text fmt [a, b])
          = [''ID,Timestamp,Type,Severity,Region,Status,Confidence,Description'',
             join '','' (csv_row fmt a), join '','' (csv_row fmt b)]"
    if cells: "\<forall>cell \<in> set (csv_row fmt a) \<union> set (csv_row fmt b). LF \<notin> set cell"
  proof -
    have comma: "LF \<notin> set '',''" by (simp add: LF_def)
    have ra: "LF \<notin> set (join '','' (csv_row fmt a))"
      using cells by (intro LF_not_in_join [OF comma]) simp
    have rb: "LF \<notin> set (join '','' (csv_row fmt b))"
      using cells by (intro LF_not_in_join [OF comma]) simp
    show ?thesis
      unfolding csv_text_two
      using split_lines_append_LF [OF header_no_LF] split_lines_append_LF [OF ra]
        split_lines_no_LF [OF rb]
      by simp
  qed
  then show ?thesis
    by (simp add: csv_text_two csv_row_def count_escape_quotes unescape_escape
        handleExportCSV_def csvContent_def)
qed



theorem csv_export_two_records_witness:
  "split_lines (csv_text example_formatters (incidents example_state))
    = [''ID,Timestamp,Type,Severity,Region,Status,Confidence,Description'',
       ''a1x9,2026-01-01T00:00:00.000Z,Poaching Camp,High,Mau Forest,Alerted,0.9,\"the so-called \"\"camp\"\"\"'',
       ''b2y8,2026-01-01T00:00:00.000Z,Poaching Camp,High,Mau Forest,Alerted,0.9,\"kiln\"'']
   \<and> map_option download_name
         (fst (handleExportCSV example_formatters ''2026-01-02T08:00:00.000Z'' ''08:00:00''
                 example_state))
       = Some ''mazingira_reports_2026-01-02T08:00:00.000Z.csv''"
proof -
  let ?a = "example_incident ''a1x9'' ''the so-called \"camp\"''"
  let ?b = "example_incident ''b2y8'' ''kiln''"
  have st: "incidents example_state = [?a, ?b]"
    by (simp add: example_state_def)
  have cells: "\<forall>cell \<in> set (csv_row example_formatters ?a) \<union> set (csv_row example_formatters ?b).
                 LF \<notin> set cell"
    by (simp add: csv_row_def example_formatters_def example_incident_def LF_def dquote_def)
  note export = csv_export_two_records [where fmt = example_formatters and a = ?a and b = ?b
      and st = example_state and now_iso = "''2026-01-02T08:00:00.000Z''" and now = "''08:00:00''"]
  from export cells
  have "split_lines (csv_text example_formatters [?a, ?b])
          = [''ID,Timestamp,Type,Severity,Region,Status,Confidence,Description'',
             join '','' (csv_row example_formatters ?a), join '','' (csv_row example_formatters ?b)]"
    by blast
  moreover from export st
  have "fst (handleExportCSV example_formatters ''2026-01-02T08:00:00.000Z'' ''08:00:00''
               example_state)
          = Some \<lparr>href = encodeURI example_formatters
                           (''data:text/csv;charset=utf-8,'' @ csv_text example_formatters [?a, ?b]),
                    download_name = ''mazingira_reports_'' @ ''2026-01-02T08:00:00.000Z'' @ ''.csv''\<rparr>"
    by blast
  ultimately show ?thesis
    by (simp add: st csv_row_def example_formatters_def example_incident_def dquote_def)
qed

text \<open>
  A description with a line feed in it is written as it is between its quotes: the
  output of two records then has four lines.
\<close>

theorem csv_export_line_feed_counterexample:
  "length [example_incident ''a1x9'' (''camp'' @ [LF] @ ''fire''), example_incident ''b2y8'' ''kiln'']
     = 2
   \<and> length (split_lines (csv_text example_formatters
        [example_incident ''a1x9'' (''camp'' @ [LF] @ ''fire''),
         example_incident ''b2y8'' ''kiln'']))
     = 4"
  by (simp add: csv_text_two csv_row_def example_formatters_def example_incident_def
      LF_def dquote_def)

end
